theory Spec2Isabelle
  imports Complex_Main "HOL-Library.Word" "HOL-Library.Log_Nat"
begin

section \<open>Data model\<close>

text \<open>
  Modelled from the spec: the types of the test identity, the test parameters, the
  session messages and the test record are declared in files of the repository other than
  \<^verbatim>\<open>server.go\<close>, the server of the network measurement tool. They are taken from
  section 3 of the specification and from the way \<^verbatim>\<open>server.go\<close> uses their
  fields.
\<close>

datatype EthrProtocol = Tcp | Udp | Http

datatype EthrTestType = Bandwidth | Cps | Pps | Latency

record EthrTestId =
  Protocol :: EthrProtocol
  Type :: EthrTestType

text \<open>
  \<^verbatim>\<open>RttCount\<close> is compared with a \<^verbatim>\<open>uint32\<close> loop variable in
  \<^verbatim>\<open>runLatencyHandler\<close>, so it is a 32-bit unsigned integer;
  \<^verbatim>\<open>BufferSize\<close> is converted with \<^verbatim>\<open>uint64(size)\<close>.
\<close>

record EthrTestParam =
  TestId :: EthrTestId
  NumThreads :: "32 word"
  BufferSize :: "32 word"
  RttCount :: "32 word"

text \<open>
  The session messages. \<^verbatim>\<open>recvSessionMsg\<close> returns a message and no error, so a
  receive that fails is seen by \<^verbatim>\<open>handleRequest\<close> only as a message whose type is
  neither \<^verbatim>\<open>EthrSyn\<close> nor \<^verbatim>\<open>EthrAck\<close>: the constructor \<open>EthrInv\<close>.
\<close>

datatype EthrMsg =
    EthrInv
  | EthrSyn EthrTestParam
  | EthrAck
  | EthrFin string
  | EthrBgn "32 word"

text \<open>
  The live test record. \<open>doneClosed\<close> is the state of the channel \<^verbatim>\<open>test.done\<close>,
  \<open>data\<close> is \<^verbatim>\<open>test.testResult.data\<close> (a \<^verbatim>\<open>uint64\<close> updated with
  \<^verbatim>\<open>atomic.AddUint64\<close> and \<^verbatim>\<open>atomic.SwapUint64\<close>).
\<close>

record ethrTest =
  remoteAddr :: string
  testParam :: EthrTestParam
  isActive :: bool
  doneClosed :: bool
  data :: "64 word"

type_synonym testKey = "string \<times> EthrProtocol \<times> EthrTestType"

type_synonym registry = "testKey \<rightharpoonup> ethrTest"

section \<open>The test registry\<close>

text \<open>
  Modelled from the spec: \<^verbatim>\<open>newTest\<close>, \<^verbatim>\<open>getTest\<close> and \<^verbatim>\<open>deleteTest\<close>
  are not in \<^verbatim>\<open>server.go\<close>. Section 2 of the specification describes the registry
  as a keyed store from (remote address, protocol, test type) to the live test record
  with create-if-absent, lookup and delete, and section 3 says that a duplicate creates
  no record.
\<close>

datatype error = ErrExist

definition keyOf :: "string \<Rightarrow> EthrTestParam \<Rightarrow> testKey" where
  "keyOf server tp = (server, Protocol (TestId tp), Type (TestId tp))"

definition testKeyOf :: "ethrTest \<Rightarrow> testKey" where
  "testKeyOf t = keyOf (remoteAddr t) (testParam t)"

definition freshTest :: "string \<Rightarrow> EthrTestParam \<Rightarrow> ethrTest" where
  "freshTest server tp =
     \<lparr>remoteAddr = server, testParam = tp, isActive = False, doneClosed = False, data = 0\<rparr>"

text \<open>Modelled from the spec: create-if-absent.\<close>

definition newTest :: "string \<Rightarrow> EthrTestParam \<Rightarrow> registry \<Rightarrow> (error + ethrTest) \<times> registry" where
  "newTest server tp reg =
     (case reg (keyOf server tp) of
        Some t \<Rightarrow> (Inl ErrExist, reg)
      | None \<Rightarrow> (Inr (freshTest server tp), reg(keyOf server tp \<mapsto> freshTest server tp)))"

text \<open>Modelled from the spec: lookup by key.\<close>

definition getTest :: "string \<Rightarrow> EthrProtocol \<Rightarrow> EthrTestType \<Rightarrow> registry \<Rightarrow> ethrTest option" where
  "getTest server proto ty reg = reg (server, proto, ty)"

text \<open>Modelled from the spec: delete.\<close>

definition deleteTest :: "ethrTest \<Rightarrow> registry \<Rightarrow> registry" where
  "deleteTest t reg = reg(testKeyOf t := None)"

section \<open>The control channel handler\<close>

text \<open>
  What \<^verbatim>\<open>handleRequest\<close> does on its connection and on the test it owns, in the
  order of the calls. The calls of \<^verbatim>\<open>ui\<close> only print and are left out.
\<close>

datatype event =
    Recv EthrMsg
  | Send EthrMsg
  | ConnClose
  | DoneClose
  | RunServerPpsTest
  | SetActive bool
  | CtrlRead

text \<open>
  What the network gives one run of \<^verbatim>\<open>handleRequest\<close>: the host of the remote
  address, the message the first \<^verbatim>\<open>recvSessionMsg\<close> returns, whether
  \<^verbatim>\<open>runServerPpsTest\<close> and the sending of the \<^verbatim>\<open>Ack\<close> succeed, and the message
  the second \<^verbatim>\<open>recvSessionMsg\<close> returns.
\<close>

record ctrlEnv =
  remote :: string
  firstMsg :: EthrMsg
  ppsSetupOk :: bool
  ackSendOk :: bool
  reply :: EthrMsg

text \<open>
  \<^verbatim>\<open>cleanupFunc\<close>: close the control connection (\<^verbatim>\<open>test.ctrlConn\<close> is the
  connection that \<^verbatim>\<open>handleRequest\<close> gave to \<^verbatim>\<open>newTest\<close>), close
  \<^verbatim>\<open>test.done\<close>, delete the test.
\<close>

definition cleanupFunc :: "ethrTest \<Rightarrow> registry \<Rightarrow> registry \<times> event list" where
  "cleanupFunc t reg = (deleteTest t reg, [ConnClose, DoneClose])"

text \<open>
  The body of \<^verbatim>\<open>handleRequest\<close> after \<^verbatim>\<open>newTest\<close> has returned the test
  (lines 87 to 120). The deferred \<^verbatim>\<open>conn.Close()\<close> is added by \<open>handleRequest\<close>.
\<close>

definition runTest :: "ctrlEnv \<Rightarrow> ethrTest \<Rightarrow> registry \<Rightarrow> registry \<times> event list" where
  "runTest env t reg =
     (let isPps = (Type (TestId (testParam t)) = Pps);
          ev1 = (if isPps then [RunServerPpsTest] else [])
      in if isPps \<and> \<not> ppsSetupOk env then
           (let (reg', evs) = cleanupFunc t reg in (reg', ev1 @ evs))
         else if \<not> ackSendOk env then
           (let (reg', evs) = cleanupFunc t reg in (reg', ev1 @ [Send EthrAck] @ evs))
         else if reply env \<noteq> EthrAck then
           (let (reg', evs) = cleanupFunc t reg
            in (reg', ev1 @ [Send EthrAck, Recv (reply env)] @ evs))
         else
           (let reg1 = reg(testKeyOf t \<mapsto> t\<lparr>isActive := True\<rparr>);
                reg2 = reg1(testKeyOf t \<mapsto> t\<lparr>isActive := False\<rparr>);
                (reg', evs) = cleanupFunc (t\<lparr>isActive := False\<rparr>) reg2
            in (reg', ev1 @ [Send EthrAck, Recv (reply env), SetActive True, CtrlRead,
                             SetActive False] @ evs)))"

text \<open>
  \<^verbatim>\<open>handleRequest\<close>. \<open>protoToString\<close> and \<open>testToString\<close> are functions of the
  repository that are not in \<^verbatim>\<open>server.go\<close>; they are parameters.
\<close>

definition rejectMsg :: "(EthrProtocol \<Rightarrow> string) \<Rightarrow> (EthrTestType \<Rightarrow> string)
    \<Rightarrow> EthrTestParam \<Rightarrow> string \<Rightarrow> string" where
  "rejectMsg protoToString testToString tp server =
     ''Rejected duplicate '' @ protoToString (Protocol (TestId tp)) @ '' '' @
     testToString (Type (TestId tp)) @ '' test from '' @ server"

definition handleRequest :: "(EthrProtocol \<Rightarrow> string) \<Rightarrow> (EthrTestType \<Rightarrow> string)
    \<Rightarrow> ctrlEnv \<Rightarrow> registry \<Rightarrow> registry \<times> event list" where
  "handleRequest protoToString testToString env reg =
     (case firstMsg env of
        EthrSyn tp \<Rightarrow>
          (case newTest (remote env) tp reg of
             (Inl err, reg1) \<Rightarrow>
               (reg1, [Recv (EthrSyn tp),
                       Send (EthrFin (rejectMsg protoToString testToString tp (remote env))),
                       ConnClose])
           | (Inr t, reg1) \<Rightarrow>
               (let (reg', evs) = runTest env t reg1
                in (reg', [Recv (EthrSyn tp)] @ evs @ [ConnClose])))
      | m \<Rightarrow> (reg, [Recv m, ConnClose]))"

section \<open>The data-plane handlers\<close>

text \<open>
  \<^verbatim>\<open>atomic.AddUint64(&test.testResult.data, n)\<close> on the test that \<^verbatim>\<open>getTest\<close>
  returned: the record of that key in the registry gets the new counter. The addition is
  the one of \<^verbatim>\<open>uint64\<close>.
\<close>

definition addData :: "testKey \<Rightarrow> 64 word \<Rightarrow> registry \<Rightarrow> registry" where
  "addData k n reg = (case reg k of None \<Rightarrow> reg | Some t \<Rightarrow> reg(k \<mapsto> t\<lparr>data := data t + n\<rparr>))"

subsection \<open>TCP connections per second\<close>

text \<open>
  \<^verbatim>\<open>runCPSHandler\<close>, run for one accepted connection whose remote host is
  \<open>server\<close>. The connection is closed by the deferred call in every case.
\<close>

definition runCPSHandler :: "string \<Rightarrow> registry \<Rightarrow> registry" where
  "runCPSHandler server reg =
     (case getTest server Tcp Cps reg of
        Some t \<Rightarrow> addData (server, Tcp, Cps) 1 reg
      | None \<Rightarrow> reg)"

subsection \<open>UDP packets per second\<close>

text \<open>
  What one call of \<^verbatim>\<open>conn.ReadFromUDP\<close> returns: a datagram with the host of its
  sender, or an error.
\<close>

datatype udpRead = Datagram string | UdpReadErr

text \<open>
  \<^verbatim>\<open>runPPSHandler\<close>: the loop \<^verbatim>\<open>for err == nil\<close> over the results of
  \<^verbatim>\<open>ReadFromUDP\<close>. A read error ends the loop; when the list is used up the handler
  waits in \<^verbatim>\<open>ReadFromUDP\<close>.
\<close>

fun runPPSHandler :: "udpRead list \<Rightarrow> registry \<Rightarrow> registry" where
  "runPPSHandler [] reg = reg"
| "runPPSHandler (UdpReadErr # rest) reg = reg"
| "runPPSHandler (Datagram server # rest) reg =
     runPPSHandler rest
       (case getTest server Udp Pps reg of
          Some t \<Rightarrow> addData (server, Udp, Pps) 1 reg
        | None \<Rightarrow> reg)"

text \<open>The datagrams a handler receives from \<open>server\<close> before its loop ends.\<close>

definition datagramsFrom :: "string \<Rightarrow> udpRead list \<Rightarrow> nat" where
  "datagramsFrom server ds =
     length (filter (\<lambda>d. d = Datagram server) (takeWhile (\<lambda>d. d \<noteq> UdpReadErr) ds))"

subsection \<open>TCP bandwidth\<close>

text \<open>
  What one iteration of the loop of \<^verbatim>\<open>runBandwidthHandler\<close> meets: the channel
  \<^verbatim>\<open>test.done\<close> is closed, or it is open and \<^verbatim>\<open>io.ReadFull\<close> succeeds or fails.
\<close>

datatype bwIter = DoneFired | ReadOk | ReadErr

text \<open>
  The state of a run of \<^verbatim>\<open>runBandwidthHandler\<close>: the test's counter, the number of
  calls of \<^verbatim>\<open>io.ReadFull\<close> made so far, and whether the loop has been left (the
  deferred \<^verbatim>\<open>closeConn\<close> then closes the connection).
\<close>

record bwRun =
  counter :: "64 word"
  readCalls :: nat
  connClosed :: bool

text \<open>
  \<^verbatim>\<open>runBandwidthHandler\<close>: \<^verbatim>\<open>break ExitForLoop\<close> when \<^verbatim>\<open>test.done\<close> is
  closed; \<^verbatim>\<open>continue\<close> when the read fails; the counter grows by
  \<^verbatim>\<open>uint64(size)\<close> when it succeeds. When the list is used up the handler is still in
  the loop.
\<close>

fun bandwidthLoop :: "32 word \<Rightarrow> bwIter list \<Rightarrow> bwRun \<Rightarrow> bwRun" where
  "bandwidthLoop sz [] st = st"
| "bandwidthLoop sz (DoneFired # rest) st = st\<lparr>connClosed := True\<rparr>"
| "bandwidthLoop sz (ReadErr # rest) st =
     bandwidthLoop sz rest (st\<lparr>readCalls := readCalls st + 1\<rparr>)"
| "bandwidthLoop sz (ReadOk # rest) st =
     bandwidthLoop sz rest
       (st\<lparr>counter := counter st + ucast sz, readCalls := readCalls st + 1\<rparr>)"

definition runBandwidthHandler :: "bwIter list \<Rightarrow> ethrTest \<Rightarrow> bwRun" where
  "runBandwidthHandler its t =
     bandwidthLoop (BufferSize (testParam t)) its
       \<lparr>counter = data t, readCalls = 0, connClosed = False\<rparr>"

subsection \<open>HTTP bandwidth\<close>

text \<open>
  The request as \<^verbatim>\<open>handleHttpRequest\<close> reads it: the method, the host of
  \<^verbatim>\<open>r.RemoteAddr\<close>, \<^verbatim>\<open>r.ContentLength\<close> (an \<^verbatim>\<open>int64\<close>), and the error text of
  \<^verbatim>\<open>ioutil.ReadAll(r.Body)\<close> when it fails.
\<close>

record httpRequest =
  Method :: string
  RemoteHost :: string
  ContentLength :: "64 word"
  bodyErr :: "string option"

text \<open>
  The calls of \<^verbatim>\<open>handleHttpRequest\<close> in their order: \<^verbatim>\<open>w.Write(body)\<close> and
  \<^verbatim>\<open>http.Error(w, text, code)\<close> on the response writer, and the lookup
  \<^verbatim>\<open>getTest(server, Http, Bandwidth)\<close>.
\<close>

datatype httpCall = Write string | Error string nat | GetTest string

definition handleHttpRequest :: "httpRequest \<Rightarrow> registry \<Rightarrow> registry \<times> httpCall list" where
  "handleHttpRequest r reg =
     (case bodyErr r of
        Some e \<Rightarrow> (reg, [Error e 400])
      | None \<Rightarrow>
          if Method r = ''GET'' \<or> Method r = ''PUT'' \<or> Method r = ''POST'' then
            (case getTest (RemoteHost r) Http Bandwidth reg of
               None \<Rightarrow>
                 (reg, [Write ''ok'', GetTest (RemoteHost r), Error ''Unauthorized request.'' 401])
             | Some t \<Rightarrow>
                 if 0 <s ContentLength r
                 then (addData (RemoteHost r, Http, Bandwidth) (ContentLength r) reg,
                       [Write ''ok'', GetTest (RemoteHost r)])
                 else (reg, [Write ''ok'', GetTest (RemoteHost r)]))
          else (reg, [Error ''Only GET, PUT and POST are supported.'' 405]))"

section \<open>The TCP latency handler\<close>

subsection \<open>Arithmetic of \<^verbatim>\<open>float64\<close>\<close>

text \<open>
  The indices of the percentiles 99.9 and 99.99 are computed in \<^verbatim>\<open>float64\<close>. A
  finite \<^verbatim>\<open>float64\<close> is a rational number; each operation of Go computes the exact
  result and rounds it to the nearest number with a 53-bit significand, ties to the even
  significand. \<open>binade x\<close> is the exponent \<open>e\<close> with \<open>2^e \<le> |x| < 2^(e+1)\<close>. The
  exponent range of the format (no result of the handler is below \<open>2^-1022\<close> or above
  \<open>2^1023\<close> in magnitude) is not modelled.
\<close>

definition roundHalfEven :: "rat \<Rightarrow> int" where
  "roundHalfEven x =
     (let f = \<lfloor>x\<rfloor>; r = x - of_int f
      in if r < 1 / 2 then f else if 1 / 2 < r then f + 1 else if even f then f else f + 1)"

definition binade :: "rat \<Rightarrow> int" where
  "binade x =
     (let (p, q) = quotient_of \<bar>x\<bar>; l = bitlen p - bitlen q
      in if 2 powi l \<le> \<bar>x\<bar> then l else l - 1)"

definition float64 :: "rat \<Rightarrow> rat" where
  "float64 x =
     (if x = 0 then 0
      else let e = binade x - 52 in of_int (roundHalfEven (x / 2 powi e)) * 2 powi e)"

text \<open>
  \<^verbatim>\<open>uint64(f)\<close> for a \<^verbatim>\<open>float64\<close> \<open>f\<close>: the fraction is discarded. Go leaves the
  result to the implementation when the truncated value is not a \<^verbatim>\<open>uint64\<close>:
  \<open>None\<close>.
\<close>

definition truncUint64 :: "rat \<Rightarrow> nat option" where
  "truncUint64 x = (if - 1 < x \<and> x < 2 ^ 64 then Some (nat \<lfloor>x\<rfloor>) else None)"

subsection \<open>One batch of round trips\<close>

datatype panic = DivideByZero | IndexOutOfRange | ConversionUnspecified

text \<open>Indexing a slice: Go panics when the index is not below the length.\<close>

definition goIndex :: "'a list \<Rightarrow> nat \<Rightarrow> panic + 'a" where
  "goIndex xs i = (if i < length xs then Inr (xs ! i) else Inl IndexOutOfRange)"

definition bindP :: "panic + 'a \<Rightarrow> ('a \<Rightarrow> panic + 'b) \<Rightarrow> panic + 'b" where
  "bindP m f = (case m of Inl e \<Rightarrow> Inl e | Inr x \<Rightarrow> f x)"

text \<open>The division of Go on signed integers truncates towards zero.\<close>

definition truncDiv :: "int \<Rightarrow> int \<Rightarrow> int" where
  "truncDiv a b = sgn a * sgn b * (\<bar>a\<bar> div \<bar>b\<bar>)"

definition int64Div :: "64 word \<Rightarrow> 64 word \<Rightarrow> 64 word" where
  "int64Div a b = word_of_int (truncDiv (sint a) (sint b))"

text \<open>
  The index \<^verbatim>\<open>((rttCountFixed*p)/100)-1\<close>, computed in \<^verbatim>\<open>uint32\<close>: the product
  and the subtraction wrap around.
\<close>

definition pctIndex :: "32 word \<Rightarrow> 32 word \<Rightarrow> nat" where
  "pctIndex rttCountFixed p = unat ((rttCountFixed * p) div 100 - 1)"

text \<open>
  The index \<^verbatim>\<open>uint64(((float64(rttCountFixed)*c)/100)-1)\<close> for the constant \<open>c\<close>
  (99.9 or 99.99): the constant is converted to \<^verbatim>\<open>float64\<close>, and the conversion of
  \<^verbatim>\<open>rttCountFixed\<close>, the product, the quotient and the difference are each rounded.
\<close>

definition fracIndex :: "32 word \<Rightarrow> rat \<Rightarrow> nat option" where
  "fracIndex rttCountFixed c =
     truncUint64
       (float64 (float64 (float64 (float64 (of_nat (unat rttCountFixed)) * float64 c) / 100) - 1))"

definition goFracIndex :: "'a list \<Rightarrow> 32 word \<Rightarrow> rat \<Rightarrow> panic + 'a" where
  "goFracIndex xs rttCountFixed c =
     (case fracIndex rttCountFixed c of
        None \<Rightarrow> Inl ConversionUnspecified
      | Some i \<Rightarrow> goIndex xs i)"

text \<open>
  The values given to \<^verbatim>\<open>ui.emitLatencyResults\<close>; a \<^verbatim>\<open>time.Duration\<close> is an
  \<^verbatim>\<open>int64\<close> of nanoseconds.
\<close>

record latencyResults =
  avg :: "64 word"
  lmin :: "64 word"
  lmax :: "64 word"
  p50 :: "64 word"
  p90 :: "64 word"
  p95 :: "64 word"
  p99 :: "64 word"
  p999 :: "64 word"
  p9999 :: "64 word"

text \<open>
  Lines 338 to 368 of \<^verbatim>\<open>runLatencyHandler\<close>, for the samples \<open>latencyNumbers\<close> of
  one batch: the sum (in \<^verbatim>\<open>int64\<close>), the mean (a division by zero panics), the
  stable sort by the signed value, \<open>rttCountFixed\<close>, the swap of the counter, and the
  eight index expressions in their order. The result is the test after the batch and
  the panic or the emitted values.
\<close>

definition latencyBatch :: "ethrTest \<Rightarrow> 64 word list \<Rightarrow> ethrTest \<times> (panic + latencyResults)" where
  "latencyBatch t latencyNumbers =
     (let rttCount = RttCount (testParam t)
      in if rttCount = 0 then (t, Inl DivideByZero)
         else
           (let sum = foldl (+) 0 latencyNumbers;
                elapsed = int64Div sum (ucast rttCount);
                sorted = sort_key sint latencyNumbers;
                rttCountFixed = (if rttCount = 1 then 2 else rttCount)
            in (t\<lparr>data := elapsed\<rparr>,
                bindP (goIndex sorted 0) (\<lambda>mn.
                bindP (goIndex sorted (unat (rttCount - 1))) (\<lambda>mx.
                bindP (goIndex sorted (pctIndex rttCountFixed 50)) (\<lambda>v50.
                bindP (goIndex sorted (pctIndex rttCountFixed 90)) (\<lambda>v90.
                bindP (goIndex sorted (pctIndex rttCountFixed 95)) (\<lambda>v95.
                bindP (goIndex sorted (pctIndex rttCountFixed 99)) (\<lambda>v99.
                bindP (goFracIndex sorted rttCountFixed (999 / 10)) (\<lambda>v999.
                bindP (goFracIndex sorted rttCountFixed (9999 / 100)) (\<lambda>v9999.
                  Inr \<lparr>avg = elapsed, lmin = mn, lmax = mx, p50 = v50, p90 = v90,
                       p95 = v95, p99 = v99, p999 = v999, p9999 = v9999\<rparr>)))))))))))"

subsection \<open>The handler\<close>

text \<open>
  One iteration of the inner loop: the write and the read succeed and
  \<^verbatim>\<open>time.Since\<close> gives the duration, or the write fails, or the read fails.
\<close>

datatype rtt = Rtt "64 word" | RttWriteErr | RttReadErr

text \<open>
  The inner loop \<^verbatim>\<open>for i := uint32(0); i < rttCount; i++\<close>: the samples, or
  \<open>None\<close> when the handler returns from inside it. A connection that gives nothing
  more makes the read fail.
\<close>

fun collectRtts :: "nat \<Rightarrow> rtt list \<Rightarrow> 64 word list option" where
  "collectRtts 0 es = Some []"
| "collectRtts (Suc n) [] = None"
| "collectRtts (Suc n) (Rtt d # es) = map_option ((#) d) (collectRtts n es)"
| "collectRtts (Suc n) (RttWriteErr # es) = None"
| "collectRtts (Suc n) (RttReadErr # es) = None"

datatype handlerExit = Returned | Panicked panic

record latencyRun =
  test :: ethrTest
  emitted :: "latencyResults list"
  outcome :: handlerExit

text \<open>
  The outer loop of \<^verbatim>\<open>runLatencyHandler\<close>. Each element of the list is what the
  connection gives one iteration: whether the read of the probe succeeds, and the round
  trips after it. The handler returns (and the deferred call closes the connection) on
  a failed read or write; a panic ends the process.
\<close>

fun latencyLoop :: "(bool \<times> rtt list) list \<Rightarrow> ethrTest \<Rightarrow> latencyResults list \<Rightarrow> latencyRun" where
  "latencyLoop [] t out = \<lparr>test = t, emitted = out, outcome = Returned\<rparr>"
| "latencyLoop ((probeOk, rtts) # rest) t out =
     (if \<not> probeOk then \<lparr>test = t, emitted = out, outcome = Returned\<rparr>
      else case collectRtts (unat (RttCount (testParam t))) rtts of
             None \<Rightarrow> \<lparr>test = t, emitted = out, outcome = Returned\<rparr>
           | Some latencyNumbers \<Rightarrow>
               (case latencyBatch t latencyNumbers of
                  (t', Inl e) \<Rightarrow> \<lparr>test = t', emitted = out, outcome = Panicked e\<rparr>
                | (t', Inr r) \<Rightarrow> latencyLoop rest t' (out @ [r])))"

definition runLatencyHandler :: "(bool \<times> rtt list) list \<Rightarrow> ethrTest \<Rightarrow> latencyRun" where
  "runLatencyHandler batches t = latencyLoop batches t []"

section \<open>Definitions used in the statements\<close>

text \<open>Predicates on the events of a run, used to state the handshake properties.\<close>

definition isAckSend :: "event \<Rightarrow> bool" where
  "isAckSend e = (e = Send EthrAck)"

definition isAckRecv :: "event \<Rightarrow> bool" where
  "isAckRecv e = (e = Recv EthrAck)"

definition beforeActive :: "event list \<Rightarrow> event list" where
  "beforeActive evs = takeWhile (\<lambda>e. e \<noteq> SetActive True) evs"

text \<open>Example values: a TCP latency test from one client.\<close>

definition exParam :: EthrTestParam where
  "exParam = \<lparr>TestId = \<lparr>Protocol = Tcp, Type = Latency\<rparr>, NumThreads = 1,
               BufferSize = 1, RttCount = 1000\<rparr>"

definition exEnv :: ctrlEnv where
  "exEnv = \<lparr>remote = ''10.0.0.1'', firstMsg = EthrSyn exParam, ppsSetupOk = True,
             ackSendOk = True, reply = EthrAck\<rparr>"

definition exProto :: "EthrProtocol \<Rightarrow> string" where
  "exProto p = (case p of Tcp \<Rightarrow> ''TCP'' | Udp \<Rightarrow> ''UDP'' | Http \<Rightarrow> ''HTTP'')"

definition exTest :: "EthrTestType \<Rightarrow> string" where
  "exTest t = (case t of Bandwidth \<Rightarrow> ''Bandwidth'' | Cps \<Rightarrow> ''Connections/s''
                 | Pps \<Rightarrow> ''Packets/s'' | Latency \<Rightarrow> ''Latency'')"

text \<open>
  Example values: a registry with a connections-per-second test, a packets-per-second
  test and an HTTP bandwidth test of the client \<open>10.0.0.2\<close>.
\<close>

definition exTestOf :: "EthrProtocol \<Rightarrow> EthrTestType \<Rightarrow> ethrTest" where
  "exTestOf p ty =
     freshTest ''10.0.0.2''
       \<lparr>TestId = \<lparr>Protocol = p, Type = ty\<rparr>, NumThreads = 1, BufferSize = 1024, RttCount = 1000\<rparr>"

definition exReg :: registry where
  "exReg = [(''10.0.0.2'', Tcp, Cps) \<mapsto> exTestOf Tcp Cps,
            (''10.0.0.2'', Udp, Pps) \<mapsto> exTestOf Udp Pps,
            (''10.0.0.2'', Http, Bandwidth) \<mapsto> exTestOf Http Bandwidth]"

definition exPost :: httpRequest where
  "exPost = \<lparr>Method = ''POST'', RemoteHost = ''10.0.0.2'', ContentLength = 500, bodyErr = None\<rparr>"

text \<open>
  The sample count used for the percentile indices: \<^verbatim>\<open>rttCountFixed\<close>, as a
  natural number.
\<close>

definition rttCountEff :: "32 word \<Rightarrow> nat" where
  "rttCountEff rttCount = (if rttCount = 1 then 2 else unat rttCount)"

text \<open>
  The index \<open>floor(n * p / 100) - 1\<close> of percentile \<open>p\<close> among \<open>n\<close> sorted
  samples.
\<close>

definition floorIndex :: "nat \<Rightarrow> rat \<Rightarrow> nat" where
  "floorIndex n p = nat \<lfloor>of_nat n * p / 100\<rfloor> - 1"

text \<open>
  The index as section 4.5 of the specification writes it:
  \<open>ceil(rttCountEff * p / 100) - 1\<close>.
\<close>

definition specIndex :: "nat \<Rightarrow> rat \<Rightarrow> nat" where
  "specIndex n p = nat \<lceil>of_nat n * p / 100\<rceil> - 1"

text \<open>Example values: a TCP latency test with a given number of round trips.\<close>

definition exLatencyTest :: "32 word \<Rightarrow> ethrTest" where
  "exLatencyTest n =
     freshTest ''10.0.0.3''
       \<lparr>TestId = \<lparr>Protocol = Tcp, Type = Latency\<rparr>, NumThreads = 1, BufferSize = 1,
        RttCount = n\<rparr>"

text \<open>
  Example values: 44000000 samples, already sorted: 610327 of one nanosecond, then
  43389673 of two nanoseconds.
\<close>

definition exBigSamples :: "64 word list" where
  "exBigSamples = replicate 610327 1 @ replicate 43389673 2"

section \<open>Properties of the control channel handler\<close>

lemma runTest_registry:
  "fst (runTest env t reg) = reg(testKeyOf t := None)"
  by (simp add: runTest_def cleanupFunc_def deleteTest_def testKeyOf_def Let_def)

lemma runTest_events:
  "snd (runTest env t reg) =
     (if Type (TestId (testParam t)) = Pps then [RunServerPpsTest] else []) @
     (if Type (TestId (testParam t)) = Pps \<and> \<not> ppsSetupOk env then []
      else if \<not> ackSendOk env then [Send EthrAck]
      else if reply env \<noteq> EthrAck then [Send EthrAck, Recv (reply env)]
      else [Send EthrAck, Recv EthrAck, SetActive True, CtrlRead, SetActive False]) @
     [ConnClose, DoneClose]"
  by (simp add: runTest_def cleanupFunc_def Let_def)

lemma handleRequest_created:
  assumes syn: "firstMsg env = EthrSyn tp"
    and absent: "reg (keyOf (remote env) tp) = None"
  shows "handleRequest p2s t2s env reg =
     (reg, [Recv (EthrSyn tp)] @ snd (runTest env (freshTest (remote env) tp)
              (reg(keyOf (remote env) tp \<mapsto> freshTest (remote env) tp))) @ [ConnClose])"
proof -
  let ?t = "freshTest (remote env) tp"
  let ?reg1 = "reg(keyOf (remote env) tp \<mapsto> ?t)"
  have k: "testKeyOf ?t = keyOf (remote env) tp"
    by (simp add: testKeyOf_def freshTest_def)
  have "fst (runTest env ?t ?reg1) = reg"
    using absent by (simp add: runTest_registry k fun_upd_idem)
  then show ?thesis
    using syn absent by (simp add: handleRequest_def newTest_def split_beta)
qed

text \<open>
  C1. When the first message of a control connection is a \<open>Syn\<close> whose key
  (remote address, protocol, test type) already has a test in the registry,
  \<open>handleRequest\<close> sends one \<open>Fin\<close> whose reason starts with
  \<open>Rejected duplicate\<close>, closes the connection, and returns the registry as it was:
  no record is created and the record of that key is not changed.
\<close>

theorem duplicate_syn_rejected:
  assumes "firstMsg env = EthrSyn tp" and "reg (keyOf (remote env) tp) = Some t0"
  shows "handleRequest p2s t2s env reg =
           (reg, [Recv (EthrSyn tp),
                  Send (EthrFin (rejectMsg p2s t2s tp (remote env))), ConnClose])
         \<and> take 19 (rejectMsg p2s t2s tp (remote env)) = ''Rejected duplicate ''"
  using assms by (simp add: handleRequest_def newTest_def rejectMsg_def)

theorem duplicate_syn_rejected_witness:
  "firstMsg exEnv = EthrSyn exParam
   \<and> [keyOf ''10.0.0.1'' exParam \<mapsto> freshTest ''10.0.0.1'' exParam] (keyOf (remote exEnv) exParam)
       = Some (freshTest ''10.0.0.1'' exParam)
   \<and> handleRequest exProto exTest exEnv [keyOf ''10.0.0.1'' exParam \<mapsto> freshTest ''10.0.0.1'' exParam]
       = ([keyOf ''10.0.0.1'' exParam \<mapsto> freshTest ''10.0.0.1'' exParam],
          [Recv (EthrSyn exParam),
           Send (EthrFin ''Rejected duplicate TCP Latency test from 10.0.0.1''), ConnClose])"
proof -
  let ?reg = "[keyOf ''10.0.0.1'' exParam \<mapsto> freshTest ''10.0.0.1'' exParam]"
  have h1: "firstMsg exEnv = EthrSyn exParam"
    by (simp add: exEnv_def)
  have h2: "?reg (keyOf (remote exEnv) exParam) = Some (freshTest ''10.0.0.1'' exParam)"
    by (simp add: exEnv_def)
  have m: "rejectMsg exProto exTest exParam (remote exEnv)
             = ''Rejected duplicate TCP Latency test from 10.0.0.1''"
    by (simp add: rejectMsg_def exProto_def exTest_def exParam_def exEnv_def)
  from duplicate_syn_rejected [of exEnv exParam ?reg _ exProto exTest, OF h1 h2]
  show ?thesis using h1 h2 m by simp
qed

text \<open>
  C2. When \<open>newTest\<close> creates the test (the key was free), every run of
  \<open>handleRequest\<close> ends with the cleanup: the control connection is closed, the
  test's \<open>done\<close> channel is closed (once), the connection is closed again by the
  deferred call, and the registry is what it was before the test was created, so the key
  holds no test. At most one \<open>Ack\<close> is sent. The test is marked active exactly when
  the data-plane setup (for \<open>Pps\<close>) and the sending of the \<open>Ack\<close> succeed and the
  client's reply is an \<open>Ack\<close>, and then exactly one \<open>Ack\<close> was sent and exactly one
  was received before it.
\<close>

theorem created_test_cleanup:
  assumes syn: "firstMsg env = EthrSyn tp"
    and absent: "reg (keyOf (remote env) tp) = None"
  shows "fst (handleRequest p2s t2s env reg) = reg
    \<and> fst (handleRequest p2s t2s env reg) (keyOf (remote env) tp) = None
    \<and> (\<exists>pre. snd (handleRequest p2s t2s env reg) = pre @ [ConnClose, DoneClose, ConnClose]
             \<and> DoneClose \<notin> set pre)
    \<and> length (filter isAckSend (snd (handleRequest p2s t2s env reg))) \<le> 1
    \<and> (SetActive True \<in> set (snd (handleRequest p2s t2s env reg)) \<longleftrightarrow>
           (Type (TestId tp) = Pps \<longrightarrow> ppsSetupOk env) \<and> ackSendOk env \<and> reply env = EthrAck)
    \<and> (SetActive True \<in> set (snd (handleRequest p2s t2s env reg)) \<longrightarrow>
           length (filter isAckSend (beforeActive (snd (handleRequest p2s t2s env reg)))) = 1
         \<and> length (filter isAckRecv (beforeActive (snd (handleRequest p2s t2s env reg)))) = 1)"
proof -
  have tp: "testParam (freshTest (remote env) tp) = tp"
    by (simp add: freshTest_def)
  show ?thesis
    unfolding handleRequest_created [of env tp reg p2s t2s, OF syn absent]
    using absent
    by (auto simp add: runTest_events tp isAckSend_def isAckRecv_def beforeActive_def)
qed

theorem created_test_cleanup_witness:
  "firstMsg exEnv = EthrSyn exParam
   \<and> Map.empty (keyOf (remote exEnv) exParam) = (None :: ethrTest option)
   \<and> fst (handleRequest exProto exTest exEnv Map.empty) = Map.empty
   \<and> SetActive True \<in> set (snd (handleRequest exProto exTest exEnv Map.empty))
   \<and> length (filter isAckSend (beforeActive (snd (handleRequest exProto exTest exEnv Map.empty)))) = 1
   \<and> length (filter isAckRecv (beforeActive (snd (handleRequest exProto exTest exEnv Map.empty)))) = 1"
proof -
  have h1: "firstMsg exEnv = EthrSyn exParam"
    by (simp add: exEnv_def)
  have h2: "Map.empty (keyOf (remote exEnv) exParam) = (None :: ethrTest option)"
    by simp
  have e: "Type (TestId exParam) \<noteq> Pps" "ackSendOk exEnv" "reply exEnv = EthrAck"
    by (simp_all add: exParam_def exEnv_def)
  from created_test_cleanup [of exEnv exParam Map.empty exProto exTest, OF h1 h2]
  show ?thesis using h1 e by simp
qed

section \<open>Properties of the data-plane handlers\<close>

lemma bandwidthLoop_errors:
  "bandwidthLoop sz (replicate k ReadErr @ rest) st =
     bandwidthLoop sz rest (st\<lparr>readCalls := readCalls st + k\<rparr>)"
  by (induction k arbitrary: st) simp_all

lemma bandwidthLoop_closed:
  "connClosed (bandwidthLoop sz its st) = (connClosed st \<or> DoneFired \<in> set its)"
  by (induction sz its st rule: bandwidthLoop.induct) auto

text \<open>
  C7. The specification says that a failed read ends the loop of the TCP bandwidth handler
  and closes the connection. In \<open>runBandwidthHandler\<close> a failed read is followed by
  \<^verbatim>\<open>continue\<close>: after any number \<open>k\<close> of failed reads, with \<open>test.done\<close> still
  open, the handler has called \<open>io.ReadFull\<close> \<open>k\<close> times, is still in its loop and
  has not closed the connection; a read that succeeds after them is credited to the test.
  The handler leaves the loop and closes the connection exactly when it finds
  \<open>test.done\<close> closed.
\<close>

theorem bandwidth_read_error_continues:
  "runBandwidthHandler (replicate k ReadErr) t
     = \<lparr>counter = data t, readCalls = k, connClosed = False\<rparr>
   \<and> runBandwidthHandler (replicate k ReadErr @ [ReadOk]) t
     = \<lparr>counter = data t + ucast (BufferSize (testParam t)), readCalls = k + 1,
        connClosed = False\<rparr>
   \<and> connClosed (runBandwidthHandler its t) = (DoneFired \<in> set its)"
  using bandwidthLoop_errors [of _ k "[]"] bandwidthLoop_errors [of _ k "[ReadOk]"]
  by (simp add: runBandwidthHandler_def bandwidthLoop_closed)

lemma addData_apply:
  "addData k n reg k' =
     (if k' = k then map_option (\<lambda>t. t\<lparr>data := data t + n\<rparr>) (reg k) else reg k')"
  by (simp add: addData_def split: option.splits)

lemma ppsStep_apply:
  "(case getTest server Udp Pps reg of Some t \<Rightarrow> addData (server, Udp, Pps) 1 reg | None \<Rightarrow> reg) k =
     (if k = (server, Udp, Pps) then map_option (\<lambda>t. t\<lparr>data := data t + 1\<rparr>) (reg k)
      else reg k)"
  by (simp add: getTest_def addData_apply split: option.splits)

lemma runPPSHandler_apply:
  "runPPSHandler ds reg k =
     (if snd k = (Udp, Pps)
      then map_option (\<lambda>t. t\<lparr>data := data t + of_nat (datagramsFrom (fst k) ds)\<rparr>) (reg k)
      else reg k)"
proof (induction ds reg rule: runPPSHandler.induct)
  case (1 reg)
  then show ?case by (simp add: datagramsFrom_def option.map_ident)
next
  case (2 rest reg)
  then show ?case by (simp add: datagramsFrom_def option.map_ident)
next
  case (3 server rest reg)
  have d: "datagramsFrom a (Datagram server # rest) =
             (if a = server then Suc (datagramsFrom a rest) else datagramsFrom a rest)" for a
    by (simp add: datagramsFrom_def)
  show ?case
    unfolding runPPSHandler.simps "3.IH" ppsStep_apply d
    by (cases k) (auto simp add: option.map_comp o_def add.assoc)
qed

text \<open>
  C8. One accepted connection on the connections-per-second port adds exactly 1 to the
  counter of the test keyed (remote host, \<open>Tcp\<close>, \<open>Cps\<close>) when the registry holds
  one, and leaves the registry as it is otherwise. One datagram on the
  packets-per-second socket adds exactly 1 to the counter of the test keyed (sender host,
  \<open>Udp\<close>, \<open>Pps\<close>) when the registry holds one, and leaves the registry as it is
  otherwise. Over any sequence of reads, the counter of a \<open>Udp\<close>/\<open>Pps\<close> test grows
  by the number of datagrams received from its host before the first read error, no
  record is created, and every other record is unchanged. The additions are those of
  \<^verbatim>\<open>uint64\<close>.
\<close>

theorem cps_pps_count:
  "(\<forall>t. reg (server, Tcp, Cps) = Some t \<longrightarrow>
       runCPSHandler server reg = reg((server, Tcp, Cps) \<mapsto> t\<lparr>data := data t + 1\<rparr>))
   \<and> (reg (server, Tcp, Cps) = None \<longrightarrow> runCPSHandler server reg = reg)
   \<and> (\<forall>t. reg (server, Udp, Pps) = Some t \<longrightarrow>
       runPPSHandler [Datagram server] reg = reg((server, Udp, Pps) \<mapsto> t\<lparr>data := data t + 1\<rparr>))
   \<and> (reg (server, Udp, Pps) = None \<longrightarrow> runPPSHandler [Datagram server] reg = reg)
   \<and> (\<forall>k. runPPSHandler ds reg k =
         (if snd k = (Udp, Pps)
          then map_option (\<lambda>t. t\<lparr>data := data t + of_nat (datagramsFrom (fst k) ds)\<rparr>) (reg k)
          else reg k))"
  by (auto simp add: runPPSHandler_apply runCPSHandler_def getTest_def addData_def)

theorem cps_pps_count_witness:
  "exReg (''10.0.0.2'', Tcp, Cps) = Some (exTestOf Tcp Cps)
   \<and> runCPSHandler ''10.0.0.2'' exReg
       = exReg((''10.0.0.2'', Tcp, Cps) \<mapsto> (exTestOf Tcp Cps)\<lparr>data := 1\<rparr>)
   \<and> exReg (''10.0.0.2'', Udp, Pps) = Some (exTestOf Udp Pps)
   \<and> runPPSHandler [Datagram ''10.0.0.2''] exReg
       = exReg((''10.0.0.2'', Udp, Pps) \<mapsto> (exTestOf Udp Pps)\<lparr>data := 1\<rparr>)
   \<and> exReg (''10.0.0.9'', Tcp, Cps) = None
   \<and> runCPSHandler ''10.0.0.9'' exReg = exReg
   \<and> exReg (''10.0.0.9'', Udp, Pps) = None
   \<and> runPPSHandler [Datagram ''10.0.0.9''] exReg = exReg"
proof -
  have h: "exReg (''10.0.0.2'', Tcp, Cps) = Some (exTestOf Tcp Cps)"
    "exReg (''10.0.0.2'', Udp, Pps) = Some (exTestOf Udp Pps)"
    "exReg (''10.0.0.9'', Tcp, Cps) = None"
    "exReg (''10.0.0.9'', Udp, Pps) = None"
    by (simp_all add: exReg_def)
  have d: "data (exTestOf Tcp Cps) = 0" "data (exTestOf Udp Pps) = 0"
    by (simp_all add: exTestOf_def freshTest_def)
  from cps_pps_count [of exReg "''10.0.0.2''" "[]"] cps_pps_count [of exReg "''10.0.0.9''" "[]"]
  show ?thesis using h d by simp
qed

text \<open>
  C9. For a request whose body was read without error: a method other than \<open>GET\<close>,
  \<open>PUT\<close>, \<open>POST\<close> gets the one call \<open>http.Error\<close> with status 405 and no
  lookup; for \<open>GET\<close>, \<open>PUT\<close>, \<open>POST\<close> the handler first writes the body
  \<open>ok\<close> and then looks up the test keyed (remote host, \<open>Http\<close>, \<open>Bandwidth\<close>):
  when there is none the handler also calls \<open>http.Error\<close> with status 401 and the
  registry is unchanged, and when there is one the handler adds the content length to its
  counter exactly when the length is positive (as an \<^verbatim>\<open>int64\<close>) and makes no other
  call.
\<close>

theorem http_request_handling:
  assumes "bodyErr r = None"
  shows "(Method r \<notin> {''GET'', ''PUT'', ''POST''} \<longrightarrow>
            handleHttpRequest r reg = (reg, [Error ''Only GET, PUT and POST are supported.'' 405]))
       \<and> (Method r \<in> {''GET'', ''PUT'', ''POST''} \<longrightarrow>
            take 2 (snd (handleHttpRequest r reg)) = [Write ''ok'', GetTest (RemoteHost r)]
          \<and> (reg (RemoteHost r, Http, Bandwidth) = None \<longrightarrow>
               handleHttpRequest r reg =
                 (reg, [Write ''ok'', GetTest (RemoteHost r), Error ''Unauthorized request.'' 401]))
          \<and> (\<forall>t. reg (RemoteHost r, Http, Bandwidth) = Some t \<longrightarrow>
               handleHttpRequest r reg =
                 (if 0 <s ContentLength r
                  then reg((RemoteHost r, Http, Bandwidth) \<mapsto> t\<lparr>data := data t + ContentLength r\<rparr>)
                  else reg, [Write ''ok'', GetTest (RemoteHost r)])))"
  using assms
  by (auto simp add: handleHttpRequest_def getTest_def addData_def split: option.splits)

theorem http_request_handling_witness:
  "bodyErr exPost = None
   \<and> Method exPost \<in> {''GET'', ''PUT'', ''POST''}
   \<and> exReg (RemoteHost exPost, Http, Bandwidth) = Some (exTestOf Http Bandwidth)
   \<and> handleHttpRequest exPost exReg =
        (exReg((''10.0.0.2'', Http, Bandwidth) \<mapsto> (exTestOf Http Bandwidth)\<lparr>data := 500\<rparr>),
         [Write ''ok'', GetTest ''10.0.0.2''])
   \<and> bodyErr (exPost\<lparr>Method := ''DELETE''\<rparr>) = None
   \<and> Method (exPost\<lparr>Method := ''DELETE''\<rparr>) \<notin> {''GET'', ''PUT'', ''POST''}
   \<and> handleHttpRequest (exPost\<lparr>Method := ''DELETE''\<rparr>) exReg =
        (exReg, [Error ''Only GET, PUT and POST are supported.'' 405])
   \<and> bodyErr (exPost\<lparr>RemoteHost := ''10.0.0.9''\<rparr>) = None
   \<and> exReg (RemoteHost (exPost\<lparr>RemoteHost := ''10.0.0.9''\<rparr>), Http, Bandwidth) = None
   \<and> handleHttpRequest (exPost\<lparr>RemoteHost := ''10.0.0.9''\<rparr>) exReg =
        (exReg, [Write ''ok'', GetTest ''10.0.0.9'', Error ''Unauthorized request.'' 401])"
proof -
  have b: "bodyErr exPost = None" "bodyErr (exPost\<lparr>Method := ''DELETE''\<rparr>) = None"
    "bodyErr (exPost\<lparr>RemoteHost := ''10.0.0.9''\<rparr>) = None"
    by (simp_all add: exPost_def)
  have m: "Method exPost = ''POST''" "RemoteHost exPost = ''10.0.0.2''"
    "ContentLength exPost = 500"
    by (simp_all add: exPost_def)
  have g: "exReg (''10.0.0.2'', Http, Bandwidth) = Some (exTestOf Http Bandwidth)"
    "exReg (''10.0.0.9'', Http, Bandwidth) = None"
    by (simp_all add: exReg_def)
  have d: "data (exTestOf Http Bandwidth) = 0"
    by (simp add: exTestOf_def freshTest_def)
  have p: "(0 :: 64 word) <s 500"
    by (simp add: word_sless_alt)
  from http_request_handling [OF b(1), of exReg]
    http_request_handling [OF b(2), of exReg]
    http_request_handling [OF b(3), of exReg]
  show ?thesis using b m g d p by simp
qed

section \<open>Properties of the rounding of \<^verbatim>\<open>float64\<close>\<close>

lemma roundHalfEven_cases:
  "roundHalfEven x = \<lfloor>x\<rfloor> \<or> roundHalfEven x = \<lfloor>x\<rfloor> + 1"
  by (simp add: roundHalfEven_def Let_def)

lemma roundHalfEven_error: "\<bar>of_int (roundHalfEven x) - x\<bar> \<le> 1 / 2"
proof -
  have "of_int \<lfloor>x\<rfloor> \<le> x" "x < of_int \<lfloor>x\<rfloor> + 1"
    by linarith+
  then show ?thesis
    by (auto simp add: roundHalfEven_def Let_def abs_le_iff)
qed

lemma roundHalfEven_ge: "of_int m \<le> x \<Longrightarrow> m \<le> roundHalfEven x"
proof -
  assume "of_int m \<le> x"
  then have "m \<le> \<lfloor>x\<rfloor>" by (simp add: le_floor_iff)
  then show ?thesis using roundHalfEven_cases [of x] by auto
qed

lemma roundHalfEven_near:
  assumes "\<bar>x - of_int m\<bar> < 1 / 2"
  shows "roundHalfEven x = m"
proof -
  have e: "\<bar>of_int (roundHalfEven x) - x\<bar> \<le> 1 / 2" by (rule roundHalfEven_error)
  have "\<bar>(of_int (roundHalfEven x) :: rat) - of_int m\<bar> < 1"
    using assms e by linarith
  then have "\<bar>(of_int (roundHalfEven x - m) :: rat)\<bar> < 1" by simp
  then have "\<bar>roundHalfEven x - m\<bar> < 1"
    by (metis of_int_abs of_int_less_1_iff)
  then show ?thesis by linarith
qed

lemma binade_bounds:
  assumes "x \<noteq> 0"
  shows "2 powi (binade x) \<le> \<bar>x\<bar> \<and> \<bar>x\<bar> < 2 powi (binade x + 1)"
proof -
  obtain p q where pq: "quotient_of \<bar>x\<bar> = (p, q)" by (cases "quotient_of \<bar>x\<bar>")
  have q: "0 < q" using pq by (rule quotient_of_denom_pos)
  have x: "\<bar>x\<bar> = of_int p / of_int q" using pq by (rule quotient_of_div)
  have "0 < \<bar>x\<bar>" using assms by simp
  then have p: "0 < p" using x q by (simp add: zero_less_divide_iff)
  define lp where "lp = bitlen p"
  define lq where "lq = bitlen q"
  have lp1: "1 \<le> lp" using p by (simp add: lp_def bitlen_alt_def)
  have lq1: "1 \<le> lq" using q by (simp add: lq_def bitlen_alt_def)
  have bp: "2 ^ nat (lp - 1) \<le> p" "p < 2 ^ nat lp"
    using bitlen_bounds [OF p] by (simp_all add: lp_def)
  have bq: "2 ^ nat (lq - 1) \<le> q" "q < 2 ^ nat lq"
    using bitlen_bounds [OF q] by (simp_all add: lq_def)
  have cast: "(2 :: rat) powi l = of_int (2 ^ nat l)" if "0 \<le> l" for l
    using that by (simp add: power_int_def)
  have rp: "(2 :: rat) powi (lp - 1) \<le> of_int p" "(of_int p :: rat) < 2 powi lp"
    using bp lp1 unfolding cast [of "lp - 1", OF diff_ge_0_iff_ge [THEN iffD2, OF lp1]]
      cast [of lp, OF order_trans [OF zero_le_one lp1]] of_int_le_iff of_int_less_iff
    by blast+
  have rq: "(2 :: rat) powi (lq - 1) \<le> of_int q" "(of_int q :: rat) < 2 powi lq"
    using bq lq1 unfolding cast [of "lq - 1", OF diff_ge_0_iff_ge [THEN iffD2, OF lq1]]
      cast [of lq, OF order_trans [OF zero_le_one lq1]] of_int_le_iff of_int_less_iff
    by blast+
  have up: "\<bar>x\<bar> < 2 powi (lp - lq + 1)"
  proof -
    have "\<bar>x\<bar> < 2 powi lp / of_int q"
      unfolding x using rp(2) q by (simp add: divide_strict_right_mono)
    also have "\<dots> \<le> 2 powi lp / 2 powi (lq - 1)"
      using rq(1) q by (intro divide_left_mono) (simp_all add: zero_less_power_int mult_pos_pos)
    also have "\<dots> = 2 powi (lp - lq + 1)"
      by (simp add: power_int_diff power_int_add)
    finally show ?thesis .
  qed
  have lo: "2 powi (lp - lq - 1) \<le> \<bar>x\<bar>"
  proof -
    have "2 powi (lp - lq - 1) = (2 :: rat) powi (lp - 1) / 2 powi lq"
      by (simp add: power_int_diff)
    also have "\<dots> \<le> of_int p / 2 powi lq"
      using rp(1) by (simp add: divide_right_mono)
    also have "\<dots> \<le> of_int p / of_int q"
      using rq(2) p q by (intro divide_left_mono) (simp_all add: zero_less_power_int mult_pos_pos)
    finally show ?thesis by (simp add: x)
  qed
  have b: "binade x = (if 2 powi (lp - lq) \<le> \<bar>x\<bar> then lp - lq else lp - lq - 1)"
    by (simp add: binade_def pq lp_def lq_def Let_def)
  show ?thesis
    using up lo by (auto simp add: b not_le)
qed

lemma binade_less:
  assumes "0 < x" "x < 2 powi m"
  shows "binade x < m"
proof (rule ccontr)
  assume "\<not> binade x < m"
  then have "m \<le> binade x" by simp
  then have "(2 :: rat) powi m \<le> 2 powi (binade x)"
    by (intro power_int_increasing) simp_all
  also have "\<dots> \<le> \<bar>x\<bar>" using binade_bounds [of x] assms by simp
  finally show False using assms by simp
qed

lemma float64_unfold:
  "x \<noteq> 0 \<Longrightarrow>
     float64 x = of_int (roundHalfEven (x / 2 powi (binade x - 52))) * 2 powi (binade x - 52)"
  by (simp add: float64_def Let_def)

lemma scaled_lower:
  assumes "0 < x"
  shows "2 ^ 52 \<le> x / 2 powi (binade x - 52)"
proof -
  have u: "(0 :: rat) < 2 powi (binade x - 52)" by (simp add: zero_less_power_int)
  have "2 ^ 52 * 2 powi (binade x - 52) = (2 :: rat) powi (binade x)"
    by (simp add: power_int_diff)
  also have "\<dots> \<le> x" using binade_bounds [of x] assms by simp
  finally show ?thesis using u by (simp add: pos_le_divide_eq)
qed

lemma float64_error:
  assumes "0 < x"
  shows "\<bar>float64 x - x\<bar> \<le> 2 powi (binade x - 53)"
proof -
  define u :: rat where "u = 2 powi (binade x - 52)"
  have u: "0 < u" by (simp add: u_def zero_less_power_int)
  have "float64 x - x = (of_int (roundHalfEven (x / u)) - x / u) * u"
    using assms u by (simp add: float64_unfold u_def algebra_simps)
  then have "\<bar>float64 x - x\<bar> = \<bar>of_int (roundHalfEven (x / u)) - x / u\<bar> * u"
    using u by (simp add: abs_mult)
  also have "\<dots> \<le> (1 / 2) * u"
    using roundHalfEven_error [of "x / u"] u by (intro mult_right_mono) simp_all
  also have "\<dots> = 2 powi (binade x - 53)"
    by (simp add: u_def power_int_diff)
  finally show ?thesis .
qed

lemma float64_error_bound:
  assumes "0 < x" "x < 2 powi m"
  shows "\<bar>float64 x - x\<bar> \<le> 2 powi (m - 54)"
proof -
  have "binade x - 53 \<le> m - 54" using binade_less [OF assms] by simp
  then have "(2 :: rat) powi (binade x - 53) \<le> 2 powi (m - 54)"
    by (intro power_int_increasing) simp_all
  then show ?thesis using float64_error [OF assms(1)] by linarith
qed

lemma float64_ge_int:
  assumes "0 \<le> k" "k < 2 ^ 53" "of_int k \<le> x"
  shows "of_int k \<le> float64 x"
proof (cases "x = 0")
  case True
  then show ?thesis using assms by (simp add: float64_def)
next
  case False
  have "(0 :: rat) \<le> of_int k" using assms(1) by simp
  then have x: "0 < x" using assms(3) False by linarith
  define u :: rat where "u = 2 powi (binade x - 52)"
  have u: "0 < u" by (simp add: u_def zero_less_power_int)
  have f: "float64 x = of_int (roundHalfEven (x / u)) * u"
    using False by (simp add: float64_unfold u_def)
  show ?thesis
  proof (cases "binade x \<le> 52")
    case True
    define j where "j = nat (52 - binade x)"
    have uj: "u = 1 / 2 ^ j"
      using True by (simp add: u_def j_def power_int_def field_simps)
    have "of_int (k * 2 ^ j) = of_int k / u" by (simp add: uj)
    also have "\<dots> \<le> x / u" using assms(3) u by (simp add: divide_right_mono)
    finally have "k * 2 ^ j \<le> roundHalfEven (x / u)" by (rule roundHalfEven_ge)
    then have "(of_int (k * 2 ^ j) :: rat) \<le> of_int (roundHalfEven (x / u))"
      by (simp only: of_int_le_iff)
    then have "of_int (k * 2 ^ j) * u \<le> of_int (roundHalfEven (x / u)) * u"
      using u by (intro mult_right_mono) simp_all
    then show ?thesis by (simp add: f uj)
  next
    case False
    then have b: "53 \<le> binade x" by simp
    have "(of_int (2 ^ 52) :: rat) \<le> x / u"
      using scaled_lower [OF x] by (simp add: u_def)
    then have "2 ^ 52 \<le> roundHalfEven (x / u)" by (rule roundHalfEven_ge)
    then have "(of_int (2 ^ 52) :: rat) \<le> of_int (roundHalfEven (x / u))"
      by (simp only: of_int_le_iff)
    then have "of_int (2 ^ 52) * u \<le> of_int (roundHalfEven (x / u)) * u"
      using u by (intro mult_right_mono) simp_all
    moreover have "of_int (2 ^ 52) * u = 2 powi (binade x)"
      by (simp add: u_def power_int_diff)
    moreover have "(2 :: rat) powi 53 \<le> 2 powi (binade x)"
      using b by (intro power_int_increasing) simp_all
    moreover have "(of_int k :: rat) < 2 powi 53"
      using assms(2) by (simp add: of_int_less_iff [of k "2 ^ 53", where ?'a = rat, simplified])
    ultimately show ?thesis by (simp add: f)
  qed
qed

lemma float64_near_int:
  assumes "0 < x" "x < 2 ^ 53" "\<bar>x - of_int k\<bar> < 2 powi (binade x - 53)"
  shows "float64 x = of_int k"
proof -
  define u :: rat where "u = 2 powi (binade x - 52)"
  have u: "0 < u" by (simp add: u_def zero_less_power_int)
  have "binade x < 53" using binade_less [of x 53] assms by simp
  then have b: "binade x \<le> 52" by simp
  define j where "j = nat (52 - binade x)"
  have uj: "u = 1 / 2 ^ j"
    using b by (simp add: u_def j_def power_int_def field_simps)
  have h: "2 powi (binade x - 53) = u / 2"
    by (simp add: u_def power_int_diff)
  have "\<bar>x / u - of_int (k * 2 ^ j)\<bar> = \<bar>x - of_int k\<bar> / u"
    using u by (simp add: uj abs_mult flip: left_diff_distrib)
  also have "\<dots> < (u / 2) / u"
    using assms(3) u unfolding h by (simp add: divide_strict_right_mono)
  also have "\<dots> = 1 / 2" using u by simp
  finally have "roundHalfEven (x / u) = k * 2 ^ j" by (rule roundHalfEven_near)
  then show ?thesis
    using assms(1) by (simp add: float64_unfold flip: u_def) (simp add: uj)
qed

lemma float64_of_int:
  assumes "0 \<le> k" "k < 2 ^ 53"
  shows "float64 (of_int k) = of_int k"
proof (cases "k = 0")
  case True
  then show ?thesis by (simp add: float64_def)
next
  case False
  have "(of_int k :: rat) < of_int (2 ^ 53)" using assms(2) by (simp only: of_int_less_iff)
  then show ?thesis
    using assms False by (intro float64_near_int) (simp_all add: zero_less_power_int)
qed

lemma float64_999: "float64 (999 / 10) = 7029837543348634 / 2 ^ 46"
  by code_simp

lemma float64_9999: "float64 (9999 / 100) = 7036170730324623 / 2 ^ 46"
  by code_simp

lemma float64_of_nat:
  "n < 2 ^ 32 \<Longrightarrow> float64 (of_nat n) = of_nat n"
  using float64_of_int [of "int n"] by simp

lemma pow_m15: "(2 :: rat) powi (- 15) = 1 / 32768"
  by (simp add: power_int_minus)

lemma pow_m21: "(2 :: rat) powi (- 21) = 1 / 2097152"
  by (simp add: power_int_minus)

lemma chain_errors:
  fixes n :: nat and c :: rat
  assumes n: "1 \<le> n" "n < 2 ^ 32" and c: "99 \<le> c" "c \<le> 100"
  defines "x1 \<equiv> float64 (of_nat n * c)"
  defines "x2 \<equiv> float64 (x1 / 100)"
  shows "\<bar>x1 - of_nat n * c\<bar> \<le> 1 / 32768"
    and "\<bar>x2 - x1 / 100\<bar> \<le> 1 / 2097152"
    and "1 < x2 \<Longrightarrow> \<bar>float64 (x2 - 1) - (x2 - 1)\<bar> \<le> 1 / 2097152"
proof -
  have nr: "(1 :: rat) \<le> of_nat n" "(of_nat n :: rat) \<le> 2 ^ 32"
    using n by (simp_all add: of_nat_le_iff [of _ "2 ^ 32", where ?'a = rat, simplified] less_imp_le)
  have y0: "0 < of_nat n * c" using nr c by (intro mult_pos_pos) simp_all
  have yu: "of_nat n * c \<le> 2 ^ 32 * 100"
    using nr c by (intro mult_mono) simp_all
  then have y1: "of_nat n * c < 2 powi 39" by simp
  show e1: "\<bar>x1 - of_nat n * c\<bar> \<le> 1 / 32768"
    using float64_error_bound [OF y0 y1] by (simp add: x1_def pow_m15)
  have e1': "of_nat n * c - 1 / 32768 \<le> x1" "x1 \<le> of_nat n * c + 1 / 32768"
    using e1 unfolding abs_diff_le_iff by blast+
  have yl: "99 \<le> of_nat n * c"
    using mult_mono [of 1 "of_nat n" 99 c] nr c by simp
  have x1a: "0 < x1 / 100" using e1'(1) yl by simp
  have "x1 < 2 ^ 33 * 100" using e1'(2) yu by simp
  then have x1b: "x1 / 100 < 2 powi 33" by simp
  show e2: "\<bar>x2 - x1 / 100\<bar> \<le> 1 / 2097152"
    using float64_error_bound [OF x1a x1b] by (simp add: x2_def pow_m21)
  have e2': "x2 \<le> x1 / 100 + 1 / 2097152"
    using e2 unfolding abs_diff_le_iff by blast
  show "\<bar>float64 (x2 - 1) - (x2 - 1)\<bar> \<le> 1 / 2097152" if "1 < x2"
  proof -
    have a: "0 < x2 - 1" using that by simp
    have "x1 / 100 \<le> 2 ^ 32 + 1" using e1'(2) yu by simp
    then have "x2 - 1 < 2 ^ 33" using e2' by simp
    then have b: "x2 - 1 < 2 powi 33" by simp
    show ?thesis using float64_error_bound [OF a b] by (simp add: pow_m21)
  qed
qed

lemma truncUint64_between:
  assumes "of_nat q - 1 \<le> x" "x < of_nat q" "1 \<le> q" "q < 2 ^ 32"
  shows "truncUint64 x = Some (q - 1)"
proof -
  have "of_int (int q - 1) \<le> x" "x < of_int (int q - 1) + 1"
    using assms by simp_all
  then have "\<lfloor>x\<rfloor> = int q - 1" by (simp only: floor_unique)
  moreover have "- 1 < x"
  proof -
    have "(1 :: rat) \<le> of_nat q" using assms(3) by simp
    then show ?thesis using assms(1) by linarith
  qed
  moreover have "x < 2 ^ 64"
  proof -
    have "(of_nat q :: rat) < of_nat (2 ^ 32)" using assms(4) by (simp only: of_nat_less_iff)
    then show ?thesis using assms(2) by simp
  qed
  ultimately show ?thesis using assms(3) by (simp add: truncUint64_def nat_diff_distrib)
qed

lemma frac_chain:
  fixes n q :: nat and c :: rat
  assumes n: "1 \<le> n" "n < 2 ^ 32" and c: "99 \<le> c" "c \<le> 100"
    and q: "1 \<le> q" "q < 2 ^ 32"
    and lower: "of_nat (100 * q) \<le> float64 (of_nat n * c)"
    and upper: "of_nat n * c \<le> 100 * of_nat q + 100 - 1 / 200"
  shows "truncUint64 (float64 (float64 (float64 (of_nat n * c) / 100) - 1)) = Some (q - 1)"
proof -
  define x1 where "x1 = float64 (of_nat n * c)"
  define x2 where "x2 = float64 (x1 / 100)"
  define x3 where "x3 = float64 (x2 - 1)"
  note e = chain_errors [OF n c]
  have e1: "x1 \<le> of_nat n * c + 1 / 32768"
    using e(1) unfolding abs_diff_le_iff x1_def by blast
  have e2: "x2 \<le> x1 / 100 + 1 / 2097152"
    using e(2) unfolding abs_diff_le_iff x1_def x2_def by blast
  have qi: "int q < 2 ^ 53"
  proof -
    have "int q < int (2 ^ 32)" using q(2) by (simp only: of_nat_less_iff)
    then show ?thesis by simp
  qed
  have l2: "of_nat q \<le> x2"
  proof -
    have "(of_int (int q) :: rat) \<le> x1 / 100" using lower by (simp add: x1_def)
    then have "(of_int (int q) :: rat) \<le> float64 (x1 / 100)"
      using qi by (intro float64_ge_int) simp_all
    then show ?thesis by (simp add: x2_def)
  qed
  have l3: "of_nat q - 1 \<le> x3"
  proof -
    have "(of_int (int q - 1) :: rat) \<le> x2 - 1" using l2 by simp
    then have "(of_int (int q - 1) :: rat) \<le> float64 (x2 - 1)"
      using qi q(1) by (intro float64_ge_int) simp_all
    then show ?thesis by (simp add: x3_def)
  qed
  have q1: "(1 :: rat) \<le> of_nat q" using q(1) by simp
  have u3: "x3 < of_nat q"
  proof (cases "x2 = 1")
    case True
    then show ?thesis using q1 by (simp add: x3_def float64_def)
  next
    case False
    then have "1 < x2" using l2 q1 by simp
    then have "\<bar>x3 - (x2 - 1)\<bar> \<le> 1 / 2097152"
      unfolding x3_def x2_def x1_def by (rule e(3))
    then have "x3 \<le> x2 - 1 + 1 / 2097152"
      unfolding abs_diff_le_iff by blast
    then show ?thesis using e1 e2 upper by simp
  qed
  show ?thesis
    using truncUint64_between [OF l3 u3 q] by (simp add: x1_def x2_def x3_def)
qed

lemma div_bounds_rat:
  fixes n a b :: nat
  assumes "0 < b"
  shows "(of_nat (n * a div b) :: rat) * of_nat b \<le> of_nat n * of_nat a"
    and "(of_nat n :: rat) * of_nat a \<le> of_nat (n * a div b) * of_nat b + of_nat b - 1"
proof -
  have "(n * a div b) * b \<le> n * a" by simp
  then have "(of_nat ((n * a div b) * b) :: rat) \<le> of_nat (n * a)"
    by (simp only: of_nat_le_iff)
  then show "(of_nat (n * a div b) :: rat) * of_nat b \<le> of_nat n * of_nat a" by simp
  have "n * a < (n * a div b) * b + b"
    using assms by (metis div_mult_mod_eq add_less_cancel_left mod_less_divisor mult.commute)
  then have "n * a + 1 \<le> (n * a div b) * b + b" by simp
  then have "(of_nat (n * a + 1) :: rat) \<le> of_nat ((n * a div b) * b + b)"
    by (simp only: of_nat_le_iff)
  then show "(of_nat n :: rat) * of_nat a \<le> of_nat (n * a div b) * of_nat b + of_nat b - 1"
    by simp
qed

lemma fracIndex_999:
  assumes "2 \<le> unat m"
  shows "fracIndex m (999 / 10) = Some (unat m * 999 div 1000 - 1)"
proof -
  define n where "n = unat m"
  define q where "q = n * 999 div 1000"
  define c :: rat where "c = 7029837543348634 / 2 ^ 46"
  have n: "1 \<le> n" "n < 2 ^ 32" "2 \<le> n"
    using assms unsigned_less [of m, where ?'a = nat] by (simp_all add: n_def)
  have nr: "(of_nat n :: rat) \<le> 2 ^ 32" "(0 :: rat) \<le> of_nat n"
    using n(2) by (simp_all add: of_nat_le_iff [of _ "2 ^ 32", where ?'a = rat, simplified] less_imp_le)
  have c: "99 \<le> c" "c \<le> 100" by (simp_all add: c_def)
  have q: "1 \<le> q" "q < 2 ^ 32" using n by (simp_all add: q_def)
  have d: "(of_nat q :: rat) * 1000 \<le> of_nat n * 999"
    "(of_nat n :: rat) * 999 \<le> of_nat q * 1000 + 999"
    using div_bounds_rat [of 1000 n 999] by (simp_all add: q_def)
  have lower: "of_nat (100 * q) \<le> float64 (of_nat n * c)"
  proof -
    have "(of_int (100 * int q) :: rat) \<le> of_nat n * c"
      using d(1) nr(2) by (simp add: c_def)
    moreover have "100 * int q < 2 ^ 53"
    proof -
      have "int q < int (2 ^ 32)" using q(2) by (simp only: of_nat_less_iff)
      then show ?thesis by simp
    qed
    ultimately have "(of_int (100 * int q) :: rat) \<le> float64 (of_nat n * c)"
      by (intro float64_ge_int) simp_all
    then show ?thesis by simp
  qed
  have upper: "of_nat n * c \<le> 100 * of_nat q + 100 - 1 / 200"
    using d(2) nr(1) by (simp add: c_def)
  have fc: "float64 (999 / 10) = c"
    unfolding float64_999 c_def ..
  have fn: "float64 (of_nat n) = of_nat n"
    using n(2) by (rule float64_of_nat)
  show ?thesis
    unfolding fracIndex_def n_def [symmetric] fn fc q_def [symmetric]
    by (rule frac_chain [OF n(1,2) c q lower upper])
qed

lemma fracIndex_9999:
  assumes "2 \<le> unat m"
  shows "fracIndex m (9999 / 100) = Some (unat m * 9999 div 10000 - 1)"
proof -
  define n where "n = unat m"
  define q where "q = n * 9999 div 10000"
  define c :: rat where "c = 7036170730324623 / 2 ^ 46"
  have n: "1 \<le> n" "n < 2 ^ 32" "2 \<le> n"
    using assms unsigned_less [of m, where ?'a = nat] by (simp_all add: n_def)
  have nr: "(of_nat n :: rat) \<le> 2 ^ 32" "(1 :: rat) \<le> of_nat n"
    using n(1,2) by (simp_all add: of_nat_le_iff [of _ "2 ^ 32", where ?'a = rat, simplified] less_imp_le)
  have c: "99 \<le> c" "c \<le> 100" by (simp_all add: c_def)
  have q: "1 \<le> q" "q < 2 ^ 32" using n by (simp_all add: q_def)
  have d: "(of_nat q :: rat) * 10000 \<le> of_nat n * 9999"
    "(of_nat n :: rat) * 9999 \<le> of_nat q * 10000 + 9999"
    using div_bounds_rat [of 10000 n 9999] by (simp_all add: q_def)
  have qi: "100 * int q < 2 ^ 53"
  proof -
    have "int q < int (2 ^ 32)" using q(2) by (simp only: of_nat_less_iff)
    then show ?thesis by simp
  qed
  have y0: "0 < of_nat n * c" using nr c by (intro mult_pos_pos) simp_all
  have lower: "of_nat (100 * q) \<le> float64 (of_nat n * c)"
  proof (cases "n * 9999 = q * 10000")
    case True
    then have "(of_nat (n * 9999) :: rat) = of_nat (q * 10000)" by (simp only:)
    then have eq: "(of_nat n :: rat) * 9999 = of_nat q * 10000" by simp
    have y1: "of_nat n * c < 2 ^ 53"
      using nr(1) by (simp add: c_def)
    have yn: "of_nat n * c \<noteq> 0" "\<bar>of_nat n * c\<bar> = of_nat n * c"
      using y0 by linarith+
    have "of_nat n * c < 2 powi (binade (of_nat n * c) + 1)"
      using binade_bounds [OF yn(1)] unfolding yn(2) by blast
    also have "\<dots> = 2 powi (binade (of_nat n * c) - 53) * 2 ^ 54"
      by (simp add: power_int_diff power_int_add)
    finally have "of_nat n * c / 2 ^ 54 < 2 powi (binade (of_nat n * c) - 53)"
      by (simp add: pos_divide_less_eq)
    moreover have "\<bar>of_nat n * c - of_int (100 * int q)\<bar> \<le> of_nat n * c / 2 ^ 54"
      using eq nr(2) by (simp add: c_def abs_le_iff)
    ultimately have "\<bar>of_nat n * c - of_int (100 * int q)\<bar> < 2 powi (binade (of_nat n * c) - 53)"
      by linarith
    then have "float64 (of_nat n * c) = of_int (100 * int q)"
      by (rule float64_near_int [OF y0 y1])
    then show ?thesis by simp
  next
    case False
    have "q * 10000 \<le> n * 9999" by (simp add: q_def)
    then have "q * 10000 + 1 \<le> n * 9999" using False by simp
    then have "(of_nat (q * 10000 + 1) :: rat) \<le> of_nat (n * 9999)"
      by (simp only: of_nat_le_iff)
    then have s: "(of_nat q :: rat) * 10000 + 1 \<le> of_nat n * 9999" by simp
    have "of_nat n * c - 1 / 32768 \<le> float64 (of_nat n * c)"
      using chain_errors(1) [OF n(1,2) c] unfolding abs_diff_le_iff by blast
    moreover have "of_nat (100 * q) \<le> of_nat n * c - 1 / 32768"
      using s nr(1) by (simp add: c_def)
    ultimately show ?thesis by linarith
  qed
  have upper: "of_nat n * c \<le> 100 * of_nat q + 100 - 1 / 200"
    using d(2) nr by (simp add: c_def)
  have fc: "float64 (9999 / 100) = c"
    unfolding float64_9999 c_def ..
  have fn: "float64 (of_nat n) = of_nat n"
    using n(2) by (rule float64_of_nat)
  show ?thesis
    unfolding fracIndex_def n_def [symmetric] fn fc q_def [symmetric]
    by (rule frac_chain [OF n(1,2) c q lower upper])
qed

section \<open>Properties of the latency handler\<close>

lemma pctIndex_small:
  assumes "unat m * unat p < 2 ^ 32" "100 \<le> unat m * unat p"
  shows "pctIndex m p = unat m * unat p div 100 - 1"
proof -
  have mp: "unat (m * p) = unat m * unat p"
    using assms(1) unat_mult_lem [of m p] by simp
  have d: "unat ((m * p) div 100) = unat m * unat p div 100"
    by (simp add: unat_div mp)
  have "1 \<le> unat m * unat p div 100"
    using assms(2) by (simp add: Suc_le_eq div_greater_zero_iff)
  then have "(m * p) div 100 \<noteq> 0"
    using d by (metis not_one_le_zero unsigned_0)
  then show ?thesis
    by (simp add: pctIndex_def unat_minus_one d)
qed

lemma floorIndex_int:
  "floorIndex n (of_nat p) = n * p div 100 - 1"
proof -
  have "\<lfloor>(of_nat n :: rat) * of_nat p / 100\<rfloor> = \<lfloor>(of_nat (n * p) :: rat) / of_nat 100\<rfloor>"
    by simp
  also have "\<dots> = of_nat (n * p div 100)"
    by (rule floor_divide_of_nat_eq)
  finally show ?thesis by (simp add: floorIndex_def)
qed

lemma floorIndex_999: "floorIndex n (999 / 10) = n * 999 div 1000 - 1"
proof -
  have "\<lfloor>(of_nat n :: rat) * (999 / 10) / 100\<rfloor> = \<lfloor>(of_nat (n * 999) :: rat) / of_nat 1000\<rfloor>"
    by simp
  also have "\<dots> = of_nat (n * 999 div 1000)"
    by (rule floor_divide_of_nat_eq)
  finally show ?thesis by (simp add: floorIndex_def)
qed

lemma floorIndex_9999: "floorIndex n (9999 / 100) = n * 9999 div 10000 - 1"
proof -
  have "\<lfloor>(of_nat n :: rat) * (9999 / 100) / 100\<rfloor> = \<lfloor>(of_nat (n * 9999) :: rat) / of_nat 10000\<rfloor>"
    by simp
  also have "\<dots> = of_nat (n * 9999 div 10000)"
    by (rule floor_divide_of_nat_eq)
  finally show ?thesis by (simp add: floorIndex_def)
qed

lemma scaled_index_less:
  fixes e a b :: nat
  assumes "a < b" "1 \<le> e"
  shows "e * a div b - 1 \<le> e - 2"
proof -
  have "e * a < e * b" using assms by simp
  then have "e * a div b < e"
    using assms(1) by (simp add: less_mult_imp_div_less mult.commute)
  then show ?thesis by simp
qed

lemma rttCountEff_facts:
  assumes "n \<noteq> 0"
  shows "unat (if n = 1 then 2 else n :: 32 word) = rttCountEff n"
    and "2 \<le> rttCountEff n"
    and "rttCountEff n - 2 < unat n"
proof -
  have n0: "0 < unat n" using assms by (simp add: unat_gt_0)
  show "unat (if n = 1 then 2 else n :: 32 word) = rttCountEff n"
    by (simp add: rttCountEff_def)
  have n1: "n \<noteq> 1 \<Longrightarrow> unat n \<noteq> 1"
    by (metis unsigned_1 word_unat_eq_iff)
  show "2 \<le> rttCountEff n"
    using n0 n1 by (auto simp add: rttCountEff_def)
  show "rttCountEff n - 2 < unat n"
    using n0 by (simp add: rttCountEff_def)
qed

lemma latencyBatch_ok:
  assumes rc: "RttCount (testParam t) = n"
    and n: "n \<noteq> 0"
    and small: "rttCountEff n * 99 < 2 ^ 32"
    and len: "length samples = unat n"
  shows "snd (latencyBatch t samples) =
           Inr \<lparr>avg = int64Div (foldl (+) 0 samples) (ucast n),
                lmin = sort_key sint samples ! 0,
                lmax = sort_key sint samples ! (unat n - 1),
                p50 = sort_key sint samples ! floorIndex (rttCountEff n) 50,
                p90 = sort_key sint samples ! floorIndex (rttCountEff n) 90,
                p95 = sort_key sint samples ! floorIndex (rttCountEff n) 95,
                p99 = sort_key sint samples ! floorIndex (rttCountEff n) 99,
                p999 = sort_key sint samples ! floorIndex (rttCountEff n) (999 / 10),
                p9999 = sort_key sint samples ! floorIndex (rttCountEff n) (9999 / 100)\<rparr>
       \<and> floorIndex (rttCountEff n) 50 < length samples
       \<and> floorIndex (rttCountEff n) 90 < length samples
       \<and> floorIndex (rttCountEff n) 95 < length samples
       \<and> floorIndex (rttCountEff n) 99 < length samples
       \<and> floorIndex (rttCountEff n) (999 / 10) < length samples
       \<and> floorIndex (rttCountEff n) (9999 / 100) < length samples"
proof -
  define f :: "32 word" where "f = (if n = 1 then 2 else n)"
  define e where "e = rttCountEff n"
  note ef = rttCountEff_facts [OF n, folded f_def e_def]
  have e1: "1 \<le> e" using ef(2) by simp
  have n0: "0 < unat n" using n by (simp add: unat_gt_0)
  have pct: "pctIndex f p = e * unat p div 100 - 1"
    if "unat p \<le> 99" "50 \<le> unat p" for p
  proof -
    have "e * unat p \<le> e * 99" using that(1) by (rule mult_le_mono2)
    moreover have "e * 99 < 2 ^ 32" using small by (simp only: e_def)
    ultimately have "e * unat p < 2 ^ 32" by (rule le_less_trans)
    then have a: "unat f * unat p < 2 ^ 32" by (simp only: ef(1))
    have "2 * 50 \<le> e * unat p" using ef(2) that(2) by (intro mult_mono) simp_all
    then have b: "100 \<le> unat f * unat p" by (simp add: ef(1))
    show ?thesis using pctIndex_small [OF a b] by (simp only: ef(1))
  qed
  have p50: "pctIndex f 50 = floorIndex e 50"
    using pct [of 50] floorIndex_int [of e 50] by simp
  have p90: "pctIndex f 90 = floorIndex e 90"
    using pct [of 90] floorIndex_int [of e 90] by simp
  have p95: "pctIndex f 95 = floorIndex e 95"
    using pct [of 95] floorIndex_int [of e 95] by simp
  have p99: "pctIndex f 99 = floorIndex e 99"
    using pct [of 99] floorIndex_int [of e 99] by simp
  have f2: "2 \<le> unat f" using ef by simp
  have p999: "fracIndex f (999 / 10) = Some (floorIndex e (999 / 10))"
    using fracIndex_999 [OF f2] by (simp add: floorIndex_999 ef(1))
  have p9999: "fracIndex f (9999 / 100) = Some (floorIndex e (9999 / 100))"
    using fracIndex_9999 [OF f2] by (simp add: floorIndex_9999 ef(1))
  have fi: "floorIndex e 50 = e * 50 div 100 - 1" "floorIndex e 90 = e * 90 div 100 - 1"
    "floorIndex e 95 = e * 95 div 100 - 1" "floorIndex e 99 = e * 99 div 100 - 1"
    using floorIndex_int [of e 50] floorIndex_int [of e 90] floorIndex_int [of e 95]
      floorIndex_int [of e 99] by simp_all
  have sc: "e * a div b - 1 < unat n" if "a < b" for a b
    using scaled_index_less [OF that e1] ef(3) by (rule le_less_trans)
  have i50: "floorIndex e 50 < unat n" unfolding fi by (rule sc) simp
  have i90: "floorIndex e 90 < unat n" unfolding fi by (rule sc) simp
  have i95: "floorIndex e 95 < unat n" unfolding fi by (rule sc) simp
  have i99: "floorIndex e 99 < unat n" unfolding fi by (rule sc) simp
  have i999: "floorIndex e (999 / 10) < unat n" unfolding floorIndex_999 by (rule sc) simp
  have i9999: "floorIndex e (9999 / 100) < unat n" unfolding floorIndex_9999 by (rule sc) simp
  have mx: "unat (n - 1) = unat n - 1" using n by (rule unat_minus_one)
  define s where "s = sort_key sint samples"
  have ls: "length s = unat n" by (simp add: s_def len)
  have g: "goIndex s i = Inr (s ! i)" if "i < unat n" for i
    using that by (simp add: goIndex_def ls)
  have g0: "goIndex s 0 = Inr (s ! 0)" using n0 by (rule g)
  have gm: "goIndex s (unat (n - 1)) = Inr (s ! (unat n - 1))"
    unfolding mx using n0 by (intro g) simp
  have g50: "goIndex s (pctIndex f 50) = Inr (s ! floorIndex e 50)"
    unfolding p50 using i50 by (rule g)
  have g90: "goIndex s (pctIndex f 90) = Inr (s ! floorIndex e 90)"
    unfolding p90 using i90 by (rule g)
  have g95: "goIndex s (pctIndex f 95) = Inr (s ! floorIndex e 95)"
    unfolding p95 using i95 by (rule g)
  have g99: "goIndex s (pctIndex f 99) = Inr (s ! floorIndex e 99)"
    unfolding p99 using i99 by (rule g)
  have g999: "goFracIndex s f (999 / 10) = Inr (s ! floorIndex e (999 / 10))"
    unfolding goFracIndex_def p999 using g [OF i999] by simp
  have g9999: "goFracIndex s f (9999 / 100) = Inr (s ! floorIndex e (9999 / 100))"
    unfolding goFracIndex_def p9999 using g [OF i9999] by simp
  have b: "bindP (Inr x) h = h x" for x :: "64 word" and h :: "64 word \<Rightarrow> panic + latencyResults"
    by (simp add: bindP_def)
  have "snd (latencyBatch t samples) =
           Inr \<lparr>avg = int64Div (foldl (+) 0 samples) (ucast n),
                lmin = s ! 0, lmax = s ! (unat n - 1),
                p50 = s ! floorIndex e 50, p90 = s ! floorIndex e 90,
                p95 = s ! floorIndex e 95, p99 = s ! floorIndex e 99,
                p999 = s ! floorIndex e (999 / 10),
                p9999 = s ! floorIndex e (9999 / 100)\<rparr>"
    unfolding latencyBatch_def rc Let_def f_def [symmetric] s_def [symmetric]
    using n by (simp only: if_False snd_conv g0 gm g50 g90 g95 g99 g999 g9999 b)
  then show ?thesis
    using i50 i90 i95 i99 i999 i9999 unfolding len s_def e_def by blast
qed

lemma latencyBatch_data:
  assumes "RttCount (testParam t) \<noteq> 0"
  shows "fst (latencyBatch t samples) =
           t\<lparr>data := int64Div (foldl (+) 0 samples) (ucast (RttCount (testParam t)))\<rparr>"
  using assms by (simp add: latencyBatch_def Let_def)

lemma foldl_add_sum_list:
  "foldl (+) a xs = a + sum_list (xs :: 64 word list)"
  by (induction xs arbitrary: a) (simp_all add: add.assoc)

lemma word_sum_list_sint:
  "sum_list (xs :: 64 word list) = word_of_int (\<Sum>x\<leftarrow>xs. sint x)"
  by (induction xs) simp_all

lemma sint_word_of_int_64:
  assumes "- (2 ^ 63) \<le> k" "k < 2 ^ 63"
  shows "sint (word_of_int k :: 64 word) = k"
  using assms by (simp add: signed_of_int signed_take_bit_int_eq_self)

lemma sint_ucast_32_64: "sint (ucast (n :: 32 word) :: 64 word) = int (unat n)"
proof -
  have "uint n < 4294967296" using unsigned_less [of n, where ?'a = int] by simp
  then have "- 9223372036854775808 \<le> uint n \<and> uint n < 9223372036854775808"
    using uint_nonnegative [of n] by linarith
  then have "- (2 ^ 63) \<le> uint n \<and> uint n < 2 ^ 63" by simp
  then show ?thesis
    by (simp add: signed_ucast_eq signed_take_bit_int_eq_self_iff)
qed

lemma truncDiv_bounds:
  assumes "0 < b"
  shows "min 0 a \<le> truncDiv a b \<and> truncDiv a b \<le> max 0 a"
proof -
  have u: "\<bar>a\<bar> div b \<le> \<bar>a\<bar>"
    using assms by (metis abs_ge_zero div_by_1 zdiv_mono2 zero_less_one less_iff_succ_less_eq add.left_neutral)
  have l: "0 \<le> \<bar>a\<bar> div b"
    using assms by (simp add: pos_imp_zdiv_nonneg_iff)
  consider "a < 0" | "a = 0" | "0 < a" by linarith
  then show ?thesis
  proof cases
    case 1
    then show ?thesis using assms u l by (simp add: truncDiv_def)
  next
    case 2
    then show ?thesis by (simp add: truncDiv_def)
  next
    case 3
    then show ?thesis using assms u l by (simp add: truncDiv_def)
  qed
qed

lemma truncDiv_nonneg:
  assumes "0 \<le> a" "0 < b"
  shows "truncDiv a b = a div b"
  using assms by (cases "a = 0") (simp_all add: truncDiv_def)

lemma latency_mean:
  assumes n: "RttCount (testParam t) \<noteq> 0"
    and len: "length samples = unat (RttCount (testParam t))"
    and lo: "- (2 ^ 63) \<le> (\<Sum>s\<leftarrow>samples. sint s)"
    and hi: "(\<Sum>s\<leftarrow>samples. sint s) < 2 ^ 63"
  shows "sint (data (fst (latencyBatch t samples)))
           = truncDiv (\<Sum>s\<leftarrow>samples. sint s) (int (length samples))"
proof -
  define S where "S = (\<Sum>s\<leftarrow>samples. sint s)"
  define m where "m = int (length samples)"
  have "0 < unat (RttCount (testParam t))" using n by (simp add: unat_gt_0)
  then have "0 < length samples" by (simp only: len)
  then have m: "0 < m" by (simp only: m_def of_nat_0_less_iff)
  have sum: "sint (foldl (+) 0 samples) = S"
    using lo hi by (simp add: foldl_add_sum_list word_sum_list_sint sint_word_of_int_64 S_def)
  have d: "data (fst (latencyBatch t samples)) = word_of_int (truncDiv S m)"
    using n by (simp add: latencyBatch_data int64Div_def sum sint_ucast_32_64 m_def len)
  have b: "min 0 S \<le> truncDiv S m \<and> truncDiv S m \<le> max 0 S"
    using m by (rule truncDiv_bounds)
  have S: "- 9223372036854775808 \<le> S" "S < 9223372036854775808"
    using lo hi by (simp_all add: S_def)
  have "- 9223372036854775808 \<le> truncDiv S m \<and> truncDiv S m < 9223372036854775808"
    using b S by linarith
  then have r: "- (2 ^ 63) \<le> truncDiv S m" "truncDiv S m < 2 ^ 63"
    by simp_all
  show ?thesis
    unfolding d S_def [symmetric] m_def [symmetric] by (rule sint_word_of_int_64 [OF r])
qed

lemma latency_mean_nonneg:
  assumes n: "RttCount (testParam t) \<noteq> 0"
    and len: "length samples = unat (RttCount (testParam t))"
    and pos: "\<forall>s\<in>set samples. 0 \<le> sint s"
    and hi: "(\<Sum>s\<leftarrow>samples. sint s) < 2 ^ 63"
  shows "uint (data (fst (latencyBatch t samples)))
           = (\<Sum>s\<leftarrow>samples. sint s) div int (length samples)"
proof -
  define S where "S = (\<Sum>s\<leftarrow>samples. sint s)"
  define m where "m = int (length samples)"
  have "0 < unat (RttCount (testParam t))" using n by (simp add: unat_gt_0)
  then have "0 < length samples" by (simp only: len)
  then have m: "0 < m" by (simp only: m_def of_nat_0_less_iff)
  have S0: "0 \<le> S" unfolding S_def using pos by (intro sum_list_nonneg) auto
  then have lo: "- (2 ^ 63) \<le> (\<Sum>s\<leftarrow>samples. sint s)" by (simp add: S_def)
  have e: "sint (data (fst (latencyBatch t samples))) = S div m"
    using latency_mean [OF n len lo hi] truncDiv_nonneg [OF S0 m] by (simp add: S_def m_def)
  have "0 \<le> S div m" using S0 m by (simp add: pos_imp_zdiv_nonneg_iff)
  then have "0 \<le> sint (data (fst (latencyBatch t samples)))" by (simp only: e)
  then have "uint (data (fst (latencyBatch t samples))) = sint (data (fst (latencyBatch t samples)))"
    using sint_lt [of "data (fst (latencyBatch t samples))"]
    by (simp add: uint_sint take_bit_int_eq_self)
  then show ?thesis by (simp only: e S_def m_def)
qed

lemma latencyBatch_overwrites:
  "fst (latencyBatch (t\<lparr>data := d\<rparr>) samples) = fst (latencyBatch t samples) \<or>
   RttCount (testParam t) = 0"
  by (simp add: latencyBatch_def Let_def)

lemma latencyLoop_zero:
  assumes "RttCount (testParam t) = 0"
  shows "latencyLoop ((True, rtts) # rest) t out
           = \<lparr>test = t, emitted = out, outcome = Panicked DivideByZero\<rparr>"
  using assms by (simp add: latencyBatch_def)

lemma ex3_hyps:
  "RttCount (testParam (exLatencyTest 3)) = 3" "(3 :: 32 word) \<noteq> 0"
  "rttCountEff 3 * 99 < 2 ^ 32" "length [30, 10, 20 :: 64 word] = unat (3 :: 32 word)"
  by (simp_all add: exLatencyTest_def freshTest_def rttCountEff_def)

lemma ex3_sorted: "sort_key sint [30, 10, 20 :: 64 word] = [10, 20, 30]"
  by simp

lemma ex3_floor: "floorIndex (rttCountEff 3) 50 = 0" "floorIndex (rttCountEff 3) 90 = 1"
  "floorIndex (rttCountEff 3) 95 = 1" "floorIndex (rttCountEff 3) 99 = 1"
  "floorIndex (rttCountEff 3) (999 / 10) = 1" "floorIndex (rttCountEff 3) (9999 / 100) = 1"
  by code_simp+

lemma ex3_spec: "specIndex (rttCountEff 3) 50 = 1" "specIndex (rttCountEff 3) 90 = 2"
  by code_simp+

lemma ex3_avg: "int64Div (foldl (+) 0 [30, 10, 20]) (ucast (3 :: 32 word)) = 20"
  by (simp add: int64Div_def truncDiv_def)

lemma ex3_batch:
  "snd (latencyBatch (exLatencyTest 3) [30, 10, 20]) =
     Inr \<lparr>avg = 20, lmin = 10, lmax = 30, p50 = 10, p90 = 20, p95 = 20, p99 = 20,
          p999 = 20, p9999 = 20\<rparr>"
  using latencyBatch_ok [OF ex3_hyps]
  by (simp only: ex3_sorted ex3_floor ex3_avg) simp

text \<open>
  C3. The specification gives the index of percentile \<open>p\<close> as
  \<open>ceil(rttCountEff * p / 100) - 1\<close>. The handler divides with truncation: the index is
  \<open>floor(rttCountEff * p / 100) - 1\<close>. For three samples 10, 20, 30 the handler
  reports p50 = 10 and p90 = 20, where the formula with \<open>ceil\<close> selects 20 and 30.
\<close>

theorem percentile_index_ceil_counterexample:
  "snd (latencyBatch (exLatencyTest 3) [30, 10, 20]) =
     Inr \<lparr>avg = 20, lmin = 10, lmax = 30, p50 = 10, p90 = 20, p95 = 20, p99 = 20,
          p999 = 20, p9999 = 20\<rparr>
   \<and> sort_key sint [30, 10, 20 :: 64 word] ! specIndex (rttCountEff 3) 50 = 20
   \<and> sort_key sint [30, 10, 20 :: 64 word] ! specIndex (rttCountEff 3) 90 = 30"
  using ex3_batch by (simp add: ex3_sorted ex3_spec)

text \<open>
  C3, as amended. For a batch of \<open>rttCount \<ge> 1\<close> samples with
  \<open>rttCountEff * 99 < 2^32\<close> (no product of the \<^verbatim>\<open>uint32\<close> index arithmetic wraps
  around), the batch does not panic and reports, for each \<open>p\<close> of 50, 90, 95, 99,
  99.9 and 99.99, the sample at index \<open>floor(rttCountEff * p / 100) - 1\<close> of the
  samples sorted ascending, where \<open>rttCountEff\<close> is \<open>rttCount\<close>, or 2 when
  \<open>rttCount = 1\<close>; each index is in range. For 99.9 and 99.99 this is the result of
  the \<^verbatim>\<open>float64\<close> computation of the handler.
\<close>

theorem percentile_index_floor:
  assumes "RttCount (testParam t) = n"
    and "n \<noteq> 0"
    and "rttCountEff n * 99 < 2 ^ 32"
    and "length samples = unat n"
  shows "snd (latencyBatch t samples) =
           Inr \<lparr>avg = int64Div (foldl (+) 0 samples) (ucast n),
                lmin = sort_key sint samples ! 0,
                lmax = sort_key sint samples ! (unat n - 1),
                p50 = sort_key sint samples ! floorIndex (rttCountEff n) 50,
                p90 = sort_key sint samples ! floorIndex (rttCountEff n) 90,
                p95 = sort_key sint samples ! floorIndex (rttCountEff n) 95,
                p99 = sort_key sint samples ! floorIndex (rttCountEff n) 99,
                p999 = sort_key sint samples ! floorIndex (rttCountEff n) (999 / 10),
                p9999 = sort_key sint samples ! floorIndex (rttCountEff n) (9999 / 100)\<rparr>
       \<and> floorIndex (rttCountEff n) 50 < length samples
       \<and> floorIndex (rttCountEff n) 90 < length samples
       \<and> floorIndex (rttCountEff n) 95 < length samples
       \<and> floorIndex (rttCountEff n) 99 < length samples
       \<and> floorIndex (rttCountEff n) (999 / 10) < length samples
       \<and> floorIndex (rttCountEff n) (9999 / 100) < length samples"
  using assms by (rule latencyBatch_ok)

theorem percentile_index_floor_witness:
  "RttCount (testParam (exLatencyTest 3)) = 3 \<and> (3 :: 32 word) \<noteq> 0
   \<and> rttCountEff 3 * 99 < 2 ^ 32 \<and> length [30, 10, 20 :: 64 word] = unat (3 :: 32 word)
   \<and> snd (latencyBatch (exLatencyTest 3) [30, 10, 20]) =
        Inr \<lparr>avg = 20, lmin = 10, lmax = 30,
             p50 = [10, 20, 30] ! floorIndex 3 50, p90 = [10, 20, 30] ! floorIndex 3 90,
             p95 = [10, 20, 30] ! floorIndex 3 95, p99 = [10, 20, 30] ! floorIndex 3 99,
             p999 = [10, 20, 30] ! floorIndex 3 (999 / 10),
             p9999 = [10, 20, 30] ! floorIndex 3 (9999 / 100)\<rparr>"
proof -
  have e: "rttCountEff 3 = 3" by (simp add: rttCountEff_def)
  from percentile_index_floor [OF ex3_hyps]
  show ?thesis using ex3_hyps by (simp only: ex3_sorted ex3_avg e) simp
qed

lemma ex1_hyps:
  "(1 :: 32 word) \<noteq> 0" "rttCountEff 1 * 99 < 2 ^ 32"
  by (simp_all add: rttCountEff_def)

lemma ex1_floor: "floorIndex (rttCountEff 1) 50 = 0" "floorIndex (rttCountEff 1) 90 = 0"
  "floorIndex (rttCountEff 1) 95 = 0" "floorIndex (rttCountEff 1) 99 = 0"
  "floorIndex (rttCountEff 1) (999 / 10) = 0" "floorIndex (rttCountEff 1) (9999 / 100) = 0"
  by code_simp+

lemma int64Div_1: "int64Div s 1 = s"
  by (simp add: int64Div_def truncDiv_def mult_sgn_abs)

text \<open>
  C4. With \<open>rttCount = 1\<close> the batch of the single sample \<open>s\<close> does not panic;
  the counter of the test becomes \<open>s\<close>, and the mean, the minimum, the maximum and
  the six percentiles emitted are all \<open>s\<close>.
\<close>

theorem single_sample:
  assumes "RttCount (testParam t) = 1"
  shows "latencyBatch t [s] =
           (t\<lparr>data := s\<rparr>,
            Inr \<lparr>avg = s, lmin = s, lmax = s, p50 = s, p90 = s, p95 = s, p99 = s,
                 p999 = s, p9999 = s\<rparr>)"
proof -
  have l: "length [s] = unat (1 :: 32 word)" by simp
  have a: "snd (latencyBatch t [s]) =
      Inr \<lparr>avg = s, lmin = s, lmax = s, p50 = s, p90 = s, p95 = s, p99 = s,
                 p999 = s, p9999 = s\<rparr>"
    using latencyBatch_ok [OF assms ex1_hyps l]
    by (simp only: ex1_floor) (simp add: int64Div_1)
  have b: "fst (latencyBatch t [s]) = t\<lparr>data := s\<rparr>"
    using assms by (simp add: latencyBatch_data int64Div_1)
  show ?thesis using a b by (simp add: prod_eq_iff)
qed

theorem single_sample_witness:
  "RttCount (testParam (exLatencyTest 1)) = 1
   \<and> latencyBatch (exLatencyTest 1) [250000] =
        ((exLatencyTest 1)\<lparr>data := 250000\<rparr>,
         Inr \<lparr>avg = 250000, lmin = 250000, lmax = 250000, p50 = 250000, p90 = 250000,
              p95 = 250000, p99 = 250000, p999 = 250000, p9999 = 250000\<rparr>)"
proof -
  have h: "RttCount (testParam (exLatencyTest 1)) = 1"
    by (simp add: exLatencyTest_def freshTest_def)
  from single_sample [OF h, where s = 250000] show ?thesis using h by simp
qed

text \<open>
  C6. For a batch of \<open>rttCount \<ge> 1\<close> samples whose sum is an \<^verbatim>\<open>int64\<close> (the
  durations of one batch are measured one after the other, so their sum is at most the
  time the batch took), the counter of the test after the batch is the sum divided by
  the number of samples, truncated towards zero; for non-negative durations this is
  the floor of the mean, also as a \<^verbatim>\<open>uint64\<close>. The counter before the batch has no
  influence: it is overwritten.
\<close>

theorem latency_counter_is_mean:
  assumes "RttCount (testParam t) \<noteq> 0"
    and "length samples = unat (RttCount (testParam t))"
    and "- (2 ^ 63) \<le> (\<Sum>s\<leftarrow>samples. sint s)"
    and "(\<Sum>s\<leftarrow>samples. sint s) < 2 ^ 63"
  shows "sint (data (fst (latencyBatch t samples)))
           = truncDiv (\<Sum>s\<leftarrow>samples. sint s) (int (length samples))
       \<and> fst (latencyBatch (t\<lparr>data := d\<rparr>) samples) = fst (latencyBatch t samples)
       \<and> ((\<forall>s\<in>set samples. 0 \<le> sint s) \<longrightarrow>
            uint (data (fst (latencyBatch t samples)))
              = (\<Sum>s\<leftarrow>samples. sint s) div int (length samples))"
  using latency_mean [OF assms] latencyBatch_overwrites [where t = t and d = d and samples = samples]
    latency_mean_nonneg [OF assms(1,2) _ assms(4)] assms(1)
  by blast

theorem latency_counter_is_mean_witness:
  "RttCount (testParam (exLatencyTest 3)) \<noteq> 0
   \<and> length [30, 10, 20 :: 64 word] = unat (RttCount (testParam (exLatencyTest 3)))
   \<and> - (2 ^ 63) \<le> (\<Sum>s\<leftarrow>[30, 10, 20 :: 64 word]. sint s)
   \<and> (\<Sum>s\<leftarrow>[30, 10, 20 :: 64 word]. sint s) < 2 ^ 63
   \<and> 0 \<le> sint (30 :: 64 word) \<and> 0 \<le> sint (10 :: 64 word) \<and> 0 \<le> sint (20 :: 64 word)
   \<and> sint (data (fst (latencyBatch (exLatencyTest 3) [30, 10, 20]))) = 20
   \<and> uint (data (fst (latencyBatch (exLatencyTest 3) [30, 10, 20]))) = 20
   \<and> fst (latencyBatch ((exLatencyTest 3)\<lparr>data := 777\<rparr>) [30, 10, 20])
       = fst (latencyBatch (exLatencyTest 3) [30, 10, 20])"
proof -
  have h: "RttCount (testParam (exLatencyTest 3)) \<noteq> 0"
    "length [30, 10, 20 :: 64 word] = unat (RttCount (testParam (exLatencyTest 3)))"
    "- (2 ^ 63) \<le> (\<Sum>s\<leftarrow>[30, 10, 20 :: 64 word]. sint s)"
    "(\<Sum>s\<leftarrow>[30, 10, 20 :: 64 word]. sint s) < 2 ^ 63"
    by (simp_all add: exLatencyTest_def freshTest_def)
  have p: "\<forall>s\<in>set [30, 10, 20 :: 64 word]. 0 \<le> sint s" by simp
  have v: "truncDiv (\<Sum>s\<leftarrow>[30, 10, 20 :: 64 word]. sint s) (int (length [30, 10, 20 :: 64 word])) = 20"
    "(\<Sum>s\<leftarrow>[30, 10, 20 :: 64 word]. sint s) div int (length [30, 10, 20 :: 64 word]) = 20"
    by (simp_all add: truncDiv_def)
  have q: "0 \<le> sint (30 :: 64 word)" "0 \<le> sint (10 :: 64 word)" "0 \<le> sint (20 :: 64 word)"
    by simp_all
  from latency_counter_is_mean [OF h, of 777]
  show ?thesis using h p q unfolding v by blast
qed

text \<open>
  C10. With \<open>rttCount = 0\<close>, when the read of the first probe succeeds the inner loop
  collects no sample and the division of the sum by \<open>rttCount\<close> panics; the indices
  0 and \<open>rttCount - 1\<close> of the empty slice are out of range as well. So a run that
  reads a probe and does not panic has \<open>rttCount \<ge> 1\<close>.
\<close>

theorem latency_rttCount_zero_panics:
  "(RttCount (testParam t) = 0 \<longrightarrow>
      runLatencyHandler ((True, rtts) # rest) t
        = \<lparr>test = t, emitted = [], outcome = Panicked DivideByZero\<rparr>
      \<and> collectRtts (unat (RttCount (testParam t))) rtts = Some []
      \<and> goIndex (sort_key sint ([] :: 64 word list)) 0 = Inl IndexOutOfRange
      \<and> goIndex (sort_key sint ([] :: 64 word list)) (unat (RttCount (testParam t) - 1))
          = Inl IndexOutOfRange)
   \<and> ((\<forall>e. outcome (runLatencyHandler ((True, rtts) # rest) t) \<noteq> Panicked e) \<longrightarrow>
        1 \<le> unat (RttCount (testParam t)))"
proof -
  have a: "runLatencyHandler ((True, rtts) # rest) t
        = \<lparr>test = t, emitted = [], outcome = Panicked DivideByZero\<rparr>"
    if "RttCount (testParam t) = 0"
    unfolding runLatencyHandler_def using that by (rule latencyLoop_zero)
  have b: "1 \<le> unat (RttCount (testParam t))" if "RttCount (testParam t) \<noteq> 0"
    using that by (simp add: Suc_le_eq unat_gt_0)
  have c: "1 \<le> unat (RttCount (testParam t))"
    if "\<forall>e. outcome (runLatencyHandler ((True, rtts) # rest) t) \<noteq> Panicked e"
  proof (rule b, rule notI)
    assume "RttCount (testParam t) = 0"
    then have "outcome (runLatencyHandler ((True, rtts) # rest) t) = Panicked DivideByZero"
      by (simp add: a)
    then show False using that by simp
  qed
  show ?thesis
    using a c by (simp add: goIndex_def)
qed

theorem latency_rttCount_zero_panics_witness:
  "RttCount (testParam (exLatencyTest 0)) = 0
   \<and> runLatencyHandler [(True, [])] (exLatencyTest 0)
        = \<lparr>test = exLatencyTest 0, emitted = [], outcome = Panicked DivideByZero\<rparr>"
proof -
  have h: "RttCount (testParam (exLatencyTest 0)) = 0"
    by (simp add: exLatencyTest_def freshTest_def)
  from latency_rttCount_zero_panics [of "exLatencyTest 0" "[]" "[]"]
  show ?thesis using h by blast
qed

lemma floorIndex_mono:
  "floorIndex e 50 \<le> floorIndex e 90" "floorIndex e 90 \<le> floorIndex e 95"
  "floorIndex e 95 \<le> floorIndex e 99" "floorIndex e 99 \<le> floorIndex e (999 / 10)"
  "floorIndex e (999 / 10) \<le> floorIndex e (9999 / 100)"
proof -
  have fi: "floorIndex e 50 = e * 50 div 100 - 1" "floorIndex e 90 = e * 90 div 100 - 1"
    "floorIndex e 95 = e * 95 div 100 - 1" "floorIndex e 99 = e * 99 div 100 - 1"
    using floorIndex_int [of e 50] floorIndex_int [of e 90] floorIndex_int [of e 95]
      floorIndex_int [of e 99] by simp_all
  have m: "e * a div c - 1 \<le> e * b div c - 1" if "a \<le> b" for a b c :: nat
    using that by (intro diff_le_mono div_le_mono mult_le_mono2)
  show "floorIndex e 50 \<le> floorIndex e 90" unfolding fi by (rule m) simp
  show "floorIndex e 90 \<le> floorIndex e 95" unfolding fi by (rule m) simp
  show "floorIndex e 95 \<le> floorIndex e 99" unfolding fi by (rule m) simp
  have "e * 99 div 100 = e * 990 div 1000"
    using div_mult_mult1 [of 10 "e * 99" 100] by (simp add: mult.commute mult.assoc)
  then show "floorIndex e 99 \<le> floorIndex e (999 / 10)"
    unfolding fi floorIndex_999 using m [of 990 999 1000] by simp
  have "e * 999 div 1000 = e * 9990 div 10000"
    using div_mult_mult1 [of 10 "e * 999" 1000] by (simp add: mult.commute mult.assoc)
  then show "floorIndex e (999 / 10) \<le> floorIndex e (9999 / 100)"
    unfolding floorIndex_999 floorIndex_9999 using m [of 9990 9999 10000] by simp
qed

lemma sorted_samples_nth:
  assumes "i \<le> j" "j < length samples"
  shows "sort_key sint samples ! i \<le>s sort_key sint samples ! j"
proof -
  have "sorted (map sint (sort_key sint samples))" by (rule sorted_sort_key)
  then have "map sint (sort_key sint samples) ! i \<le> map sint (sort_key sint samples) ! j"
    using assms by (intro sorted_nth_mono) simp_all
  then show ?thesis using assms by (simp add: word_sle_eq)
qed

text \<open>
  Where no product of the index arithmetic wraps around, the six percentiles of a batch
  are non-decreasing (as signed durations) in the order p50, p90, p95, p99, p99.9,
  p99.99.
\<close>

lemma percentiles_monotone_no_overflow:
  assumes "RttCount (testParam t) = n"
    and "n \<noteq> 0"
    and "rttCountEff n * 99 < 2 ^ 32"
    and "length samples = unat n"
  shows "\<exists>r. snd (latencyBatch t samples) = Inr r
           \<and> p50 r \<le>s p90 r \<and> p90 r \<le>s p95 r \<and> p95 r \<le>s p99 r
           \<and> p99 r \<le>s p999 r \<and> p999 r \<le>s p9999 r"
  using latencyBatch_ok [OF assms] floorIndex_mono [of "rttCountEff n"]
  by (auto intro!: sorted_samples_nth)

lemma big_pct: "pctIndex 44000000 50 = 21999999" "pctIndex 44000000 90 = 39599999"
  "pctIndex 44000000 95 = 41799999" "pctIndex 44000000 99 = 610326"
  by (simp_all add: pctIndex_def)

lemma big_frac: "fracIndex 44000000 (999 / 10) = Some 43955999"
  "fracIndex 44000000 (9999 / 100) = Some 43995599"
  using fracIndex_999 [of 44000000] fracIndex_9999 [of 44000000] by simp_all

lemma foldl_add_replicate:
  "foldl (+) a (replicate n (x :: 64 word)) = a + of_nat n * x"
  by (induction n arbitrary: a) (simp_all add: algebra_simps)

lemma big_div: "int64Div 87389673 44000000 = 1"
  by (simp add: int64Div_def truncDiv_def)

lemma big_sorted: "sort_key sint exBigSamples = exBigSamples"
  unfolding exBigSamples_def by (rule sort_key_id_if_sorted) (simp add: sorted_append)

lemma big_nth:
  "exBigSamples ! 0 = 1" "exBigSamples ! 610326 = 1" "exBigSamples ! 21999999 = 2"
  "exBigSamples ! 39599999 = 2" "exBigSamples ! 41799999 = 2" "exBigSamples ! 43955999 = 2"
  "exBigSamples ! 43995599 = 2" "exBigSamples ! 43999999 = 2"
  by (simp_all add: exBigSamples_def nth_append)

text \<open>
  C5. The six percentiles are to be non-decreasing from p50 to p99.99 for every sample
  set. The indices of p50, p90, p95 and p99 are computed in \<^verbatim>\<open>uint32\<close>, and the
  product \<open>rttCountFixed * 99\<close> wraps around from \<open>rttCount = 43383509\<close> on, while
  the indices of p99.9 and p99.99 are computed in \<^verbatim>\<open>float64\<close> and do not. For
  \<open>rttCount = 44000000\<close> the handler reads p95 at index 41799999 and p99 at index
  610326: on the samples \<open>exBigSamples\<close> it emits p95 = 2 and p99 = 1.
\<close>

theorem percentiles_decrease_on_overflow:
  "length exBigSamples = unat (RttCount (testParam (exLatencyTest 44000000)))
   \<and> latencyBatch (exLatencyTest 44000000) exBigSamples =
     ((exLatencyTest 44000000)\<lparr>data := 1\<rparr>,
      Inr \<lparr>avg = 1, lmin = 1, lmax = 2, p50 = 2, p90 = 2, p95 = 2, p99 = 1, p999 = 2,
           p9999 = 2\<rparr>)"
proof -
  have r: "RttCount (testParam (exLatencyTest 44000000)) = 44000000"
    by (simp add: exLatencyTest_def freshTest_def)
  have l: "length exBigSamples = 44000000"
    by (simp add: exBigSamples_def)
  have s: "foldl (+) 0 exBigSamples = 87389673"
    by (simp add: exBigSamples_def foldl_add_replicate)
  have ne: "exBigSamples \<noteq> []"
    by (simp add: exBigSamples_def)
  show ?thesis
    by (simp add: latencyBatch_def r Let_def s big_div big_sorted goIndex_def
        goFracIndex_def bindP_def big_pct big_frac big_nth l ne)
qed


end
